theory Spec2Isabelle
  imports Main "HOL-Library.Char_ord" "HOL-Library.List_Lexorder" "HOL-Library.AList"
begin

section \<open>Strings and exceptions\<close>

text \<open>
  Python strings are modelled as \<open>string\<close>, one \<open>char\<close> per code point; the model
  covers code points below 256. Exceptions are values: a class and the text that
  \<open>str(e)\<close> gives.
\<close>

datatype exn_class =
    IndexError | ValueError
  | FileExistsError | FileNotFoundError | NotADirectoryError | IsADirectoryError
  | OSError | ShutilError | OtherException

datatype exn = Exn exn_class string

fun exn_str :: "exn \<Rightarrow> string" where
  "exn_str (Exn k m) = m"

fun exn_class_of :: "exn \<Rightarrow> exn_class" where
  "exn_class_of (Exn k m) = k"

text \<open>\<open>except OSError\<close>: the file errors and \<open>shutil.Error\<close> are subclasses of \<open>OSError\<close>.\<close>

definition is_OSError :: "exn \<Rightarrow> bool" where
  "is_OSError e = (exn_class_of e \<in>
     {FileExistsError, FileNotFoundError, NotADirectoryError, IsADirectoryError, OSError, ShutilError})"

definition nl :: string where
  "nl = [CHR 0x0A]"

definition startswith :: "string \<Rightarrow> string \<Rightarrow> bool" where
  "startswith s p = (take (length p) s = p)"

definition endswith :: "string \<Rightarrow> string \<Rightarrow> bool" where
  "endswith s p = (length p \<le> length s \<and> drop (length s - length p) s = p)"

text \<open>\<open>sep.join(xs)\<close>\<close>

fun str_join :: "string \<Rightarrow> string list \<Rightarrow> string" where
  "str_join s [] = []"
| "str_join s [x] = x"
| "str_join s (x # y # ys) = x @ s @ str_join s (y # ys)"

text \<open>\<open>s.split(c)\<close> for a one-character separator: never the empty list.\<close>

fun split_from :: "char \<Rightarrow> string \<Rightarrow> string \<Rightarrow> string list" where
  "split_from c cur [] = [cur]"
| "split_from c cur (x # xs) =
     (if x = c then cur # split_from c [] xs else split_from c (cur @ [x]) xs)"

definition str_split :: "char \<Rightarrow> string \<Rightarrow> string list" where
  "str_split c s = split_from c [] s"

text \<open>\<open>s.rstrip(c)\<close> for a one-character set.\<close>

definition rstrip_char :: "char \<Rightarrow> string \<Rightarrow> string" where
  "rstrip_char c s = rev (dropWhile (\<lambda>x. x = c) (rev s))"

text \<open>
  \<open>str.isspace\<close> on code points below 256: tab to carriage return, the four
  separators 0x1C to 0x1F, space, NEL (0x85) and no-break space (0xA0).
\<close>

definition py_isspace :: "char \<Rightarrow> bool" where
  "py_isspace c = ((of_char c :: nat) \<in> {9, 10, 11, 12, 13, 28, 29, 30, 31, 32, 133, 160})"

definition strip :: "string \<Rightarrow> string" where
  "strip s = rev (dropWhile py_isspace (rev (dropWhile py_isspace s)))"

section \<open>posixpath\<close>

definition isabs :: "string \<Rightarrow> bool" where
  "isabs s = startswith s ''/''"

definition join :: "string \<Rightarrow> string \<Rightarrow> string" where
  "join a b =
     (if startswith b ''/'' then b
      else if a = [] \<or> endswith a ''/'' then a @ b
      else a @ ''/'' @ b)"

text \<open>\<open>splitroot\<close>: the root is empty, one slash, or exactly two slashes.\<close>

definition splitroot :: "string \<Rightarrow> string \<times> string" where
  "splitroot p =
     (if take 1 p \<noteq> ''/'' then ([], p)
      else if take 1 (drop 1 p) \<noteq> ''/'' \<or> take 1 (drop 2 p) = ''/'' then (''/'', drop 1 p)
      else (take 2 p, drop 2 p))"

text \<open>The loop of \<open>normpath\<close> over the components, \<open>new_comps\<close> as the accumulator.\<close>

fun norm_comps :: "string \<Rightarrow> string list \<Rightarrow> string list \<Rightarrow> string list" where
  "norm_comps initial_slashes new_comps [] = new_comps"
| "norm_comps initial_slashes new_comps (cmp # comps) =
     (if cmp = [] \<or> cmp = ''.'' then norm_comps initial_slashes new_comps comps
      else if cmp \<noteq> ''..'' \<or> (initial_slashes = [] \<and> new_comps = [])
              \<or> (new_comps \<noteq> [] \<and> last new_comps = ''..'')
           then norm_comps initial_slashes (new_comps @ [cmp]) comps
      else if new_comps \<noteq> [] then norm_comps initial_slashes (butlast new_comps) comps
      else norm_comps initial_slashes new_comps comps)"

definition normpath :: "string \<Rightarrow> string" where
  "normpath path =
     (if path = [] then ''.''
      else (case splitroot path of (initial_slashes, rest) \<Rightarrow>
        (let comps = norm_comps initial_slashes [] (str_split CHR ''/'' rest);
             r = initial_slashes @ str_join ''/'' comps
         in if r = [] then ''.'' else r)))"

text \<open>\<open>p[p.rfind('/') + 1:]\<close> and \<open>p[:p.rfind('/') + 1]\<close>\<close>

definition after_last_sep :: "string \<Rightarrow> string" where
  "after_last_sep p = rev (takeWhile (\<lambda>x. x \<noteq> CHR ''/'') (rev p))"

definition upto_last_sep :: "string \<Rightarrow> string" where
  "upto_last_sep p = rev (dropWhile (\<lambda>x. x \<noteq> CHR ''/'') (rev p))"

definition basename :: "string \<Rightarrow> string" where
  "basename p = after_last_sep p"

definition dirname :: "string \<Rightarrow> string" where
  "dirname p =
     (let head = upto_last_sep p
      in if head \<noteq> [] \<and> head \<noteq> replicate (length head) CHR ''/''
         then rstrip_char CHR ''/'' head else head)"

subsection \<open>The path resolver of the executor\<close>

definition path_resolve :: "string \<Rightarrow> string \<Rightarrow> string" where
  "path_resolve path cwd =
     (if isabs path then normpath path else normpath (join cwd path))"

section \<open>shlex.split\<close>

text \<open>
  \<open>shlex.split(s)\<close> runs \<open>read_token\<close> in POSIX mode with \<open>whitespace_split\<close> set, no
  comment characters and no punctuation characters, until it returns no token. The
  lexer state is the one \<open>shlex\<close> keeps: between tokens (\<open>' '\<close>), in a word (\<open>'a'\<close>),
  in a quotation (the quote character) or after an escape character.
\<close>

datatype lex_state = White | Word | InQuote char | InEscape

definition shlex_whitespace :: "char \<Rightarrow> bool" where
  "shlex_whitespace c = (c \<in> {CHR '' '', CHR 0x09, CHR 0x0D, CHR 0x0A})"

definition shlex_quotes :: "char \<Rightarrow> bool" where
  "shlex_quotes c = (c \<in> {CHR 0x27, CHR 0x22})"

definition shlex_escape :: "char \<Rightarrow> bool" where
  "shlex_escape c = (c = CHR 0x5C)"

definition shlex_escapedquotes :: "char \<Rightarrow> bool" where
  "shlex_escapedquotes c = (c = CHR 0x22)"

text \<open>What \<open>read_token\<close> hands back at a break: no token when nothing was read unquoted.\<close>

definition emit :: "bool \<Rightarrow> string \<Rightarrow> string list" where
  "emit quoted token = (if \<not> quoted \<and> token = [] then [] else [token])"

text \<open>
  \<open>lex acc state escapedstate quoted token input\<close>: the tokens found so far, the
  lexer's state, the locals of \<open>read_token\<close> and the unread input. A break emits the
  token and starts \<open>read_token\<close> again with fresh locals.
\<close>

fun lex :: "string list \<Rightarrow> lex_state \<Rightarrow> lex_state \<Rightarrow> bool \<Rightarrow> string \<Rightarrow> string
              \<Rightarrow> exn + string list" where
  "lex acc White esc quoted token [] = Inr (acc @ emit quoted token)"
| "lex acc Word esc quoted token [] = Inr (acc @ emit quoted token)"
| "lex acc (InQuote q) esc quoted token [] = Inl (Exn ValueError ''No closing quotation'')"
| "lex acc InEscape esc quoted token [] = Inl (Exn ValueError ''No escaped character'')"
| "lex acc White esc quoted token (c # cs) =
     (if shlex_whitespace c then
        (if token \<noteq> [] \<or> quoted then lex (acc @ [token]) White White False [] cs
         else lex acc White esc quoted token cs)
      else if shlex_escape c then lex acc InEscape Word quoted token cs
      else if shlex_quotes c then lex acc (InQuote c) esc quoted token cs
      else lex acc Word esc quoted [c] cs)"
| "lex acc (InQuote q) esc quoted token (c # cs) =
     (if c = q then lex acc Word esc True token cs
      else if shlex_escape c \<and> shlex_escapedquotes q then lex acc InEscape (InQuote q) True token cs
      else lex acc (InQuote q) esc True (token @ [c]) cs)"
| "lex acc InEscape esc quoted token (c # cs) =
     (let token' =
        (if (case esc of InQuote q \<Rightarrow> c \<noteq> CHR 0x5C \<and> c \<noteq> q | _ \<Rightarrow> False)
         then token @ [CHR 0x5C] else token)
      in lex acc esc esc quoted (token' @ [c]) cs)"
| "lex acc Word esc quoted token (c # cs) =
     (if shlex_whitespace c then
        (if token \<noteq> [] \<or> quoted then lex (acc @ [token]) White White False [] cs
         else lex acc White esc quoted token cs)
      else if shlex_quotes c then lex acc (InQuote c) esc quoted token cs
      else if shlex_escape c then lex acc InEscape Word quoted token cs
      else lex acc Word esc quoted (token @ [c]) cs)"

definition shlex_split :: "string \<Rightarrow> exn + string list" where
  "shlex_split s = lex [] White White False [] s"

section \<open>The filesystem and the environment\<close>

text \<open>
  The filesystem is a tree of regular files and directories, a directory being the list
  of its entries in the order the system lists them. Symbolic links, special files,
  permissions and timestamps are outside the model, and a file's content is its text.
\<close>

datatype node = File string | Dir "(string \<times> node) list"

record world =
  root :: node
  pcwd :: "string list"
  env_HOME :: "string option"
  pw_dir :: "string option"
  env_USER :: "string option"
  clock_text :: string
  uptime_delta :: "exn + int"
  cpu_percent :: "exn + string"
  virtual_memory :: "exn + string \<times> string \<times> string"
  process_lines :: "exn + string list"
  st_size_dir :: nat

text \<open>
  \<open>pcwd\<close> is the directory of the process, against which the system resolves a relative
  path. \<open>clock_text\<close> is \<open>datetime.now().strftime(...)\<close>, \<open>uptime_delta\<close> is
  \<open>int(now - psutil.boot_time())\<close>, \<open>cpu_percent\<close> and \<open>virtual_memory\<close> are the texts
  of the \<open>psutil\<close> readings (used, total, percent), \<open>process_lines\<close> the formatted
  lines of the process table; each of the latter may be the exception raised instead.
\<close>

type_synonym result = "string \<times> string \<times> string option \<times> int"

type_synonym 'a io = "(exn + 'a) \<times> world"

fun lookup :: "node \<Rightarrow> string list \<Rightarrow> node option" where
  "lookup n [] = Some n"
| "lookup (File s) (c # cs) = None"
| "lookup (Dir es) (c # cs) = (case map_of es c of None \<Rightarrow> None | Some m \<Rightarrow> lookup m cs)"

text \<open>\<open>store ns v n\<close>: the tree \<open>n\<close> with the node at \<open>ns\<close> replaced by \<open>v\<close>, or removed.\<close>

fun store :: "string list \<Rightarrow> node option \<Rightarrow> node \<Rightarrow> node" where
  "store [] v n = (case v of Some m \<Rightarrow> m | None \<Rightarrow> n)"
| "store (c # cs) v (File s) = File s"
| "store (c # cs) v (Dir es) =
     (if cs = [] then
        (case v of Some m \<Rightarrow> Dir (AList.update c m es) | None \<Rightarrow> Dir (AList.delete c es))
      else (case map_of es c of
              None \<Rightarrow> Dir es
            | Some m \<Rightarrow> Dir (AList.update c (store cs v m) es)))"

text \<open>
  Path resolution as the kernel does it: every component is looked up in a directory;
  an empty component and \<open>.\<close> stay, \<open>..\<close> goes to the parent. The result names the
  last component, which need not exist.
\<close>

fun walk :: "node \<Rightarrow> string list \<Rightarrow> string list \<Rightarrow> exn_class + string list" where
  "walk r acc [] = Inr acc"
| "walk r acc (c # cs) =
     (case lookup r acc of
        None \<Rightarrow> Inl FileNotFoundError
      | Some (File s) \<Rightarrow> Inl NotADirectoryError
      | Some (Dir es) \<Rightarrow>
          if c = [] \<or> c = ''.'' then walk r acc cs
          else if c = ''..'' then walk r (butlast acc) cs
          else walk r (acc @ [c]) cs)"

definition resolve :: "world \<Rightarrow> string \<Rightarrow> exn_class + string list" where
  "resolve w p =
     (if p = [] then Inl FileNotFoundError
      else walk (root w) (if isabs p then [] else pcwd w) (str_split CHR ''/'' p))"

definition stat :: "world \<Rightarrow> string \<Rightarrow> exn_class + node" where
  "stat w p =
     (case resolve w p of
        Inl k \<Rightarrow> Inl k
      | Inr ns \<Rightarrow> (case lookup (root w) ns of None \<Rightarrow> Inl FileNotFoundError | Some n \<Rightarrow> Inr n))"

definition path_exists :: "world \<Rightarrow> string \<Rightarrow> bool" where
  "path_exists w p = (case stat w p of Inr n \<Rightarrow> True | Inl k \<Rightarrow> False)"

definition isdir :: "world \<Rightarrow> string \<Rightarrow> bool" where
  "isdir w p = (case stat w p of Inr (Dir es) \<Rightarrow> True | _ \<Rightarrow> False)"

definition isfile :: "world \<Rightarrow> string \<Rightarrow> bool" where
  "isfile w p = (case stat w p of Inr (File s) \<Rightarrow> True | _ \<Rightarrow> False)"

text \<open>The text of an \<open>OSError\<close> with a file name.\<close>

definition errno_text :: "exn_class \<Rightarrow> string" where
  "errno_text k =
     (if k = FileNotFoundError then ''[Errno 2] No such file or directory''
      else if k = FileExistsError then ''[Errno 17] File exists''
      else if k = NotADirectoryError then ''[Errno 20] Not a directory''
      else if k = IsADirectoryError then ''[Errno 21] Is a directory''
      else ''[Errno 39] Directory not empty'')"

definition os_error :: "exn_class \<Rightarrow> string \<Rightarrow> exn" where
  "os_error k p = Exn k (errno_text k @ '': '' @ [CHR 0x27] @ p @ [CHR 0x27])"

definition busy_error :: "string \<Rightarrow> exn" where
  "busy_error p = Exn OSError (''[Errno 16] Device or resource busy: '' @ [CHR 0x27] @ p @ [CHR 0x27])"

definition set_root :: "world \<Rightarrow> node \<Rightarrow> world" where
  "set_root w n = w\<lparr>root := n\<rparr>"

definition listdir :: "world \<Rightarrow> string \<Rightarrow> exn + string list" where
  "listdir w p =
     (case stat w p of
        Inl k \<Rightarrow> Inl (os_error k p)
      | Inr (File s) \<Rightarrow> Inl (os_error NotADirectoryError p)
      | Inr (Dir es) \<Rightarrow> Inr (map fst es))"

text \<open>The size of a file is the length of its UTF-8 encoding.\<close>

definition utf8_len :: "string \<Rightarrow> nat" where
  "utf8_len s = sum_list (map (\<lambda>c. if (of_char c :: nat) < 128 then 1 else 2) s)"

definition getsize :: "world \<Rightarrow> string \<Rightarrow> exn + nat" where
  "getsize w p =
     (case stat w p of
        Inl k \<Rightarrow> Inl (os_error k p)
      | Inr (File s) \<Rightarrow> Inr (utf8_len s)
      | Inr (Dir es) \<Rightarrow> Inr (st_size_dir w))"

text \<open>
  Reading in text mode translates \<open>\r\n\<close> and a lone \<open>\r\<close> to \<open>\n\<close> (universal
  newlines).
\<close>

fun universal_newlines :: "string \<Rightarrow> string" where
  "universal_newlines [] = []"
| "universal_newlines [c] = (if c = CHR 0x0D then [CHR 0x0A] else [c])"
| "universal_newlines (c # d # cs) =
     (if c = CHR 0x0D \<and> d = CHR 0x0A then CHR 0x0A # universal_newlines cs
      else if c = CHR 0x0D then CHR 0x0A # universal_newlines (d # cs)
      else c # universal_newlines (d # cs))"

definition read_text :: "world \<Rightarrow> string \<Rightarrow> exn + string" where
  "read_text w p =
     (case stat w p of
        Inl k \<Rightarrow> Inl (os_error k p)
      | Inr (Dir es) \<Rightarrow> Inl (os_error IsADirectoryError p)
      | Inr (File s) \<Rightarrow> Inr (universal_newlines s))"

text \<open>
  \<open>open(p, mode)\<close> for writing, then \<open>write(text)\<close>: mode \<open>w\<close> truncates, mode \<open>a\<close>
  (\<open>appending\<close>) keeps what is there.
\<close>

definition write_text :: "bool \<Rightarrow> string \<Rightarrow> string \<Rightarrow> world \<Rightarrow> unit io" where
  "write_text appending p text w =
     (case resolve w p of
        Inl k \<Rightarrow> (Inl (os_error k p), w)
      | Inr ns \<Rightarrow>
          (case lookup (root w) ns of
             Some (Dir es) \<Rightarrow> (Inl (os_error IsADirectoryError p), w)
           | Some (File s) \<Rightarrow>
               (Inr (), set_root w (store ns (Some (File ((if appending then s else []) @ text))) (root w)))
           | None \<Rightarrow> (Inr (), set_root w (store ns (Some (File text)) (root w)))))"

definition mkdir_os :: "string \<Rightarrow> world \<Rightarrow> unit io" where
  "mkdir_os p w =
     (case resolve w p of
        Inl k \<Rightarrow> (Inl (os_error k p), w)
      | Inr ns \<Rightarrow>
          (case lookup (root w) ns of
             Some n \<Rightarrow> (Inl (os_error FileExistsError p), w)
           | None \<Rightarrow> (Inr (), set_root w (store ns (Some (Dir [])) (root w)))))"

definition remove_os :: "string \<Rightarrow> world \<Rightarrow> unit io" where
  "remove_os p w =
     (case resolve w p of
        Inl k \<Rightarrow> (Inl (os_error k p), w)
      | Inr ns \<Rightarrow>
          (case lookup (root w) ns of
             None \<Rightarrow> (Inl (os_error FileNotFoundError p), w)
           | Some (Dir es) \<Rightarrow> (Inl (os_error IsADirectoryError p), w)
           | Some (File s) \<Rightarrow> (Inr (), set_root w (store ns None (root w)))))"

definition rmdir_os :: "string \<Rightarrow> world \<Rightarrow> unit io" where
  "rmdir_os p w =
     (case resolve w p of
        Inl k \<Rightarrow> (Inl (os_error k p), w)
      | Inr ns \<Rightarrow>
          (case lookup (root w) ns of
             None \<Rightarrow> (Inl (os_error FileNotFoundError p), w)
           | Some (File s) \<Rightarrow> (Inl (os_error NotADirectoryError p), w)
           | Some (Dir es) \<Rightarrow>
               if es \<noteq> [] then (Inl (os_error OSError p), w)
               else if ns = [] then (Inl (busy_error p), w)
               else (Inr (), set_root w (store ns None (root w)))))"

text \<open>
  \<open>shutil.rmtree\<close>: the tree goes; of the root directory the content goes and the
  final \<open>rmdir\<close> fails.
\<close>

definition rmtree :: "string \<Rightarrow> world \<Rightarrow> unit io" where
  "rmtree p w =
     (case resolve w p of
        Inl k \<Rightarrow> (Inl (os_error k p), w)
      | Inr ns \<Rightarrow>
          (case lookup (root w) ns of
             None \<Rightarrow> (Inl (os_error FileNotFoundError p), w)
           | Some (File s) \<Rightarrow> (Inl (os_error NotADirectoryError p), w)
           | Some (Dir es) \<Rightarrow>
               if ns = [] then (Inl (busy_error p), set_root w (Dir []))
               else (Inr (), set_root w (store ns None (root w)))))"

subsection \<open>os.makedirs\<close>

definition path_split :: "string \<Rightarrow> string \<times> string" where
  "path_split p = (dirname p, basename p)"

text \<open>The head and tail that \<open>makedirs\<close> works with: split again when the tail is empty.\<close>

definition makedirs_parts :: "string \<Rightarrow> string \<times> string" where
  "makedirs_parts name =
     (case path_split name of (head, tail) \<Rightarrow>
        if tail = [] then path_split head else (head, tail))"

text \<open>The final \<open>mkdir\<close> of \<open>makedirs\<close>, with its \<open>except OSError\<close>.\<close>

definition makedirs_leaf :: "string \<Rightarrow> bool \<Rightarrow> world \<Rightarrow> unit io" where
  "makedirs_leaf name exist_ok w =
     (case mkdir_os name w of
        (Inl e, w1) \<Rightarrow> if \<not> exist_ok \<or> \<not> isdir w1 name then (Inl e, w1) else (Inr (), w1)
      | (Inr u, w1) \<Rightarrow> (Inr u, w1))"

function makedirs :: "string \<Rightarrow> bool \<Rightarrow> world \<Rightarrow> unit io" where
  "makedirs name exist_ok w =
     (if fst (makedirs_parts name) \<noteq> [] \<and> snd (makedirs_parts name) \<noteq> []
         \<and> \<not> path_exists w (fst (makedirs_parts name))
      then
        (case makedirs (fst (makedirs_parts name)) exist_ok w of
           (Inl e, w1) \<Rightarrow>
             if exn_class_of e = FileExistsError then
               (if snd (makedirs_parts name) = ''.'' then (Inr (), w1)
                else makedirs_leaf name exist_ok w1)
             else (Inl e, w1)
         | (Inr u, w1) \<Rightarrow>
             if snd (makedirs_parts name) = ''.'' then (Inr (), w1)
             else makedirs_leaf name exist_ok w1)
      else makedirs_leaf name exist_ok w)"
  by pat_completeness auto
termination
proof -
  have r: "length (rstrip_char c s) \<le> length s" for c s
    by (simp add: rstrip_char_def le_trans [OF length_dropWhile_le])
  have le: "length (dirname p) \<le> length p" for p
  proof -
    have "length (upto_last_sep p) \<le> length p"
      by (simp add: upto_last_sep_def le_trans [OF length_dropWhile_le])
    then show ?thesis
      using r [of "CHR ''/''" "upto_last_sep p"] by (auto simp: dirname_def Let_def)
  qed
  have less: "length (dirname p) < length p" if t: "basename p \<noteq> []" for p
  proof -
    have "length (takeWhile (\<lambda>x. x \<noteq> CHR ''/'') (rev p))
            + length (dropWhile (\<lambda>x. x \<noteq> CHR ''/'') (rev p)) = length (rev p)"
      by (metis length_append takeWhile_dropWhile_id)
    moreover from t have "0 < length (takeWhile (\<lambda>x. x \<noteq> CHR ''/'') (rev p))"
      by (simp add: basename_def after_last_sep_def)
    ultimately have "length (upto_last_sep p) < length p"
      unfolding upto_last_sep_def length_rev by linarith
    then show ?thesis
      using r [of "CHR ''/''" "upto_last_sep p"] by (auto simp: dirname_def Let_def)
  qed
  have parts: "length (fst (makedirs_parts name)) < length name"
    if "snd (makedirs_parts name) \<noteq> []" for name
    using that less [of name] less [of "dirname name"] le [of name]
    by (auto simp: makedirs_parts_def path_split_def split: if_splits)
  show ?thesis
    by (relation "measure (\<lambda>(name, exist_ok, w). length name)") (auto simp: parts)
qed

declare makedirs.simps [simp del]

subsection \<open>shutil\<close>

definition quote :: "string \<Rightarrow> string" where
  "quote s = [CHR 0x27] @ s @ [CHR 0x27]"

text \<open>Two paths name the same file when both exist and resolve to the same place.\<close>

definition samefile :: "world \<Rightarrow> string \<Rightarrow> string \<Rightarrow> bool" where
  "samefile w a b =
     (path_exists w a \<and> path_exists w b \<and> resolve w a = resolve w b)"

definition read_bytes :: "world \<Rightarrow> string \<Rightarrow> exn + string" where
  "read_bytes w p =
     (case stat w p of
        Inl k \<Rightarrow> Inl (os_error k p)
      | Inr (Dir es) \<Rightarrow> Inl (os_error IsADirectoryError p)
      | Inr (File s) \<Rightarrow> Inr s)"

definition copyfile :: "string \<Rightarrow> string \<Rightarrow> world \<Rightarrow> unit io" where
  "copyfile src dst w =
     (if samefile w src dst then
        (Inl (Exn ShutilError (quote src @ '' and '' @ quote dst @ '' are the same file'')), w)
      else
        (case read_bytes w src of
           Inl e \<Rightarrow> (Inl e, w)
         | Inr content \<Rightarrow>
             (case write_text False dst content w of
                (Inl e, w1) \<Rightarrow>
                  if exn_class_of e = IsADirectoryError \<and> \<not> path_exists w1 dst
                  then (Inl (Exn FileNotFoundError (''Directory does not exist: '' @ dst)), w1)
                  else (Inl e, w1)
              | (Inr u, w1) \<Rightarrow> (Inr u, w1))))"

definition copy2 :: "string \<Rightarrow> string \<Rightarrow> world \<Rightarrow> unit io" where
  "copy2 src dst w =
     copyfile src (if isdir w dst then join dst (basename src) else dst) w"

text \<open>
  \<open>shutil.copytree\<close> lists the source, makes the destination with \<open>makedirs\<close> (which
  fails when it exists) and copies the entries; in this model the copy of a tree is
  the tree. When the destination lies below an entry of the source, the recursion of
  \<open>copytree\<close> descends into its own output until the system stops it, and it ends in
  \<open>shutil.Error\<close>; what it leaves behind there is not modelled further than the
  directories \<open>makedirs\<close> made.
\<close>

definition copytree :: "string \<Rightarrow> string \<Rightarrow> world \<Rightarrow> unit io" where
  "copytree src dst w =
     (case stat w src of
        Inl k \<Rightarrow> (Inl (os_error k src), w)
      | Inr (File s) \<Rightarrow> (Inl (os_error NotADirectoryError src), w)
      | Inr (Dir es) \<Rightarrow>
          (case makedirs dst False w of
             (Inl e, w1) \<Rightarrow> (Inl e, w1)
           | (Inr u, w1) \<Rightarrow>
               (case (resolve w1 src, resolve w1 dst) of
                  (Inr s, Inr d) \<Rightarrow>
                    if length s < length d \<and> take (length s) d = s
                       \<and> map_of es (d ! length s) \<noteq> None
                    then (Inl (Exn ShutilError (''copytree: '' @ quote dst @ '' lies inside '' @ quote src)), w1)
                    else (Inr (), set_root w1 (store d (Some (Dir es)) (root w1)))
                | _ \<Rightarrow> (Inl (os_error FileNotFoundError src), w1))))"

text \<open>\<open>os.rename\<close> on one filesystem.\<close>

definition rename_os :: "string \<Rightarrow> string \<Rightarrow> world \<Rightarrow> unit io" where
  "rename_os src dst w =
     (case resolve w src of
        Inl k \<Rightarrow> (Inl (os_error k src), w)
      | Inr s \<Rightarrow>
          (case lookup (root w) s of
             None \<Rightarrow> (Inl (os_error FileNotFoundError src), w)
           | Some n \<Rightarrow>
               (case resolve w dst of
                  Inl k \<Rightarrow> (Inl (os_error k dst), w)
                | Inr d \<Rightarrow>
                    if s = d then (Inr (), w)
                    else if s = [] \<or> d = [] then (Inl (busy_error src), w)
                    else if length s < length d \<and> take (length s) d = s
                      then (Inl (Exn OSError (''[Errno 22] Invalid argument: '' @ quote src)), w)
                    else
                      (case (n, lookup (root w) d) of
                         (Dir es, Some (File t)) \<Rightarrow> (Inl (os_error NotADirectoryError src), w)
                       | (Dir es, Some (Dir ds)) \<Rightarrow>
                           if ds \<noteq> [] then (Inl (os_error OSError src), w)
                           else (Inr (), set_root w (store d (Some n) (store s None (root w))))
                       | (File t, Some (Dir ds)) \<Rightarrow> (Inl (os_error IsADirectoryError src), w)
                       | _ \<Rightarrow> (Inr (), set_root w (store d (Some n) (store s None (root w))))))))"

definition getcwd :: "world \<Rightarrow> string" where
  "getcwd w = ''/'' @ str_join ''/'' (pcwd w)"

definition abspath :: "world \<Rightarrow> string \<Rightarrow> string" where
  "abspath w p = normpath (if isabs p then p else join (getcwd w) p)"

definition destinsrc :: "world \<Rightarrow> string \<Rightarrow> string \<Rightarrow> bool" where
  "destinsrc w src dst =
     (let s = abspath w src; d = abspath w dst;
          s' = (if endswith s ''/'' then s else s @ ''/'');
          d' = (if endswith d ''/'' then d else d @ ''/'')
      in startswith d' s')"

definition shutil_basename :: "string \<Rightarrow> string" where
  "shutil_basename p = basename (rstrip_char CHR ''/'' p)"

definition move :: "string \<Rightarrow> string \<Rightarrow> world \<Rightarrow> unit io" where
  "move src dst w =
     (if isdir w dst \<and> samefile w src dst then rename_os src dst w
      else
        (let real_dst = (if isdir w dst then join dst (shutil_basename src) else dst)
         in if isdir w dst \<and> path_exists w real_dst then
              (Inl (Exn ShutilError (''Destination path '' @ quote real_dst @ '' already exists'')), w)
            else
              (case rename_os src real_dst w of
                 (Inr u, w1) \<Rightarrow> (Inr u, w1)
               | (Inl e, w1) \<Rightarrow>
                   if isdir w1 src then
                     (if destinsrc w1 src dst then
                        (Inl (Exn ShutilError (''Cannot move a directory '' @ quote src
                                @ '' into itself '' @ quote dst @ ''.'')), w1)
                      else
                        (case copytree src real_dst w1 of
                           (Inl e2, w2) \<Rightarrow> (Inl e2, w2)
                         | (Inr u, w2) \<Rightarrow> rmtree src w2))
                   else
                     (case copy2 src real_dst w1 of
                        (Inl e2, w2) \<Rightarrow> (Inl e2, w2)
                      | (Inr u, w2) \<Rightarrow> remove_os src w2))))"

text \<open>\<open>os.path.expanduser("~")\<close>: \<open>HOME\<close>, else the password database, else the tilde itself.\<close>

definition expanduser_tilde :: "world \<Rightarrow> string" where
  "expanduser_tilde w =
     (case (case env_HOME w of Some h \<Rightarrow> Some h | None \<Rightarrow> pw_dir w) of
        None \<Rightarrow> ''~''
      | Some userhome \<Rightarrow>
          (let u = rstrip_char CHR ''/'' userhome in if u = [] then ''/'' else u))"

subsection \<open>Formatting\<close>

fun show_nat :: "nat \<Rightarrow> string" where
  "show_nat n =
     (if n < 10 then [char_of (48 + n)]
      else show_nat (n div 10) @ [char_of (48 + n mod 10)])"

definition show_int :: "int \<Rightarrow> string" where
  "show_int i = (if i < 0 then ''-'' @ show_nat (nat (- i)) else show_nat (nat i))"

definition rjust :: "nat \<Rightarrow> string \<Rightarrow> string" where
  "rjust n s = replicate (n - length s) CHR '' '' @ s"

text \<open>\<open>f.readlines()\<close>: the lines of a text, each with its newline.\<close>

fun lines_from :: "string \<Rightarrow> string \<Rightarrow> string list" where
  "lines_from cur [] = (if cur = [] then [] else [cur])"
| "lines_from cur (c # cs) =
     (if c = CHR 0x0A then (cur @ [c]) # lines_from [] cs else lines_from (cur @ [c]) cs)"

definition readlines :: "string \<Rightarrow> string list" where
  "readlines s = lines_from [] s"

section \<open>The command handlers\<close>

text \<open>
  A handler takes the arguments, the working directory and the world, and gives the
  four-tuple it returns, or the exception it raises, with the world it leaves. The
  third component is \<open>None\<close> where the Python returns \<open>None\<close>.
\<close>

definition ok :: "string \<Rightarrow> string \<Rightarrow> world \<Rightarrow> result io" where
  "ok out cwd w = (Inr (out, [], Some cwd, 0), w)"

definition failure :: "string \<Rightarrow> string \<Rightarrow> int \<Rightarrow> world \<Rightarrow> result io" where
  "failure err cwd code w = (Inr ([], err, Some cwd, code), w)"

subsection \<open>ls\<close>

definition ls_long_format :: "string list \<Rightarrow> bool" where
  "ls_long_format args = (args \<noteq> [] \<and> hd args = ''-l'')"

definition ls_target :: "string list \<Rightarrow> string \<Rightarrow> string" where
  "ls_target args cwd =
     (if args \<noteq> [] then
        (if hd args = ''-l'' then
           (if length args > 1 then path_resolve (args ! 1) cwd else cwd)
         else path_resolve (hd args) cwd)
      else cwd)"

fun ls_lines :: "string \<Rightarrow> string list \<Rightarrow> world \<Rightarrow> exn + string list" where
  "ls_lines target [] w = Inr []"
| "ls_lines target (e # es) w =
     (case getsize w (join target e) of
        Inl x \<Rightarrow> Inl x
      | Inr sz \<Rightarrow>
          (case ls_lines target es w of
             Inl x \<Rightarrow> Inl x
           | Inr ls \<Rightarrow> Inr ((rjust 8 (show_nat sz) @ '' '' @ e) # ls)))"

definition ls :: "string list \<Rightarrow> string \<Rightarrow> world \<Rightarrow> result io" where
  "ls args cwd w =
     (let target = ls_target args cwd in
      if \<not> path_exists w target then
        failure (''ls: cannot access '' @ quote target @ '': No such file or directory'' @ nl) cwd 2 w
      else if isfile w target then ok (basename target @ nl) cwd w
      else
        (case listdir w target of
           Inl x \<Rightarrow> (Inl x, w)
         | Inr names \<Rightarrow>
             (let entries = sort names in
              if ls_long_format args then
                (case ls_lines target entries w of
                   Inl x \<Rightarrow> (Inl x, w)
                 | Inr ls \<Rightarrow> ok (str_join nl ls @ (if ls \<noteq> [] then nl else [])) cwd w)
              else ok (str_join ''  '' entries @ nl) cwd w)))"

subsection \<open>cd\<close>

definition cd :: "string list \<Rightarrow> string \<Rightarrow> world \<Rightarrow> result io" where
  "cd args cwd w =
     (let new = (if args = [] then expanduser_tilde w else path_resolve (hd args) cwd) in
      if \<not> path_exists w new then
        (case args of
           [] \<Rightarrow> (Inl (Exn IndexError ''list index out of range''), w)
         | a # rest \<Rightarrow> failure (''cd: '' @ a @ '': No such file or directory'' @ nl) cwd 1 w)
      else if \<not> isdir w new then
        (case args of
           [] \<Rightarrow> (Inl (Exn IndexError ''list index out of range''), w)
         | a # rest \<Rightarrow> failure (''cd: '' @ a @ '': Not a directory'' @ nl) cwd 1 w)
      else (Inr ([], [], Some new, 0), w))"

subsection \<open>mkdir, rm, rmdir\<close>

fun mkdir_loop :: "string list \<Rightarrow> string \<Rightarrow> world \<Rightarrow> result io" where
  "mkdir_loop [] cwd w = ok [] cwd w"
| "mkdir_loop (a # rest) cwd w =
     (case makedirs (path_resolve a cwd) False w of
        (Inl e, w1) \<Rightarrow>
          if exn_class_of e = FileExistsError then
            failure (''mkdir: cannot create directory '' @ quote a @ '': File exists'' @ nl) cwd 1 w1
          else (Inl e, w1)
      | (Inr u, w1) \<Rightarrow> mkdir_loop rest cwd w1)"

definition mkdir :: "string list \<Rightarrow> string \<Rightarrow> world \<Rightarrow> result io" where
  "mkdir args cwd w =
     (if args = [] then failure (''mkdir: missing operand'' @ nl) cwd 2 w
      else mkdir_loop args cwd w)"

definition rm_flag :: "string \<Rightarrow> bool" where
  "rm_flag a = (a = ''-r'' \<or> a = ''-rf'' \<or> a = ''-fr'')"

fun rm_loop :: "string list \<Rightarrow> bool \<Rightarrow> string \<Rightarrow> world \<Rightarrow> result io" where
  "rm_loop [] recursive cwd w = ok [] cwd w"
| "rm_loop (p # rest) recursive cwd w =
     (let rp = path_resolve p cwd in
      if \<not> path_exists w rp then
        failure (''rm: cannot remove '' @ quote p @ '': No such file or directory'' @ nl) cwd 1 w
      else if isdir w rp \<and> \<not> recursive then
        failure (''rm: cannot remove '' @ quote p @ '': Is a directory'' @ nl) cwd 1 w
      else
        (case (if isdir w rp then rmtree rp w else remove_os rp w) of
           (Inl e, w1) \<Rightarrow> (Inl e, w1)
         | (Inr u, w1) \<Rightarrow> rm_loop rest recursive cwd w1))"

definition rm :: "string list \<Rightarrow> string \<Rightarrow> world \<Rightarrow> result io" where
  "rm args cwd w =
     (if args = [] then failure (''rm: missing operand'' @ nl) cwd 2 w
      else
        (let recursive = list_ex rm_flag args;
             paths = filter (\<lambda>a. \<not> rm_flag a) args
         in if paths = [] then failure (''rm: missing path'' @ nl) cwd 2 w
            else rm_loop paths recursive cwd w))"

fun rmdir_loop :: "string list \<Rightarrow> string \<Rightarrow> world \<Rightarrow> result io" where
  "rmdir_loop [] cwd w = ok [] cwd w"
| "rmdir_loop (a # rest) cwd w =
     (let path = path_resolve a cwd in
      if \<not> path_exists w path then
        failure (''rmdir: failed to remove '' @ quote a @ '': No such file or directory'' @ nl) cwd 1 w
      else if \<not> isdir w path then
        failure (''rmdir: failed to remove '' @ quote a @ '': Not a directory'' @ nl) cwd 1 w
      else
        (case rmdir_os path w of
           (Inl e, w1) \<Rightarrow>
             if is_OSError e then
               failure (''rmdir: failed to remove '' @ quote a @ '': Directory not empty'' @ nl) cwd 1 w1
             else (Inl e, w1)
         | (Inr u, w1) \<Rightarrow> rmdir_loop rest cwd w1))"

definition rmdir :: "string list \<Rightarrow> string \<Rightarrow> world \<Rightarrow> result io" where
  "rmdir args cwd w =
     (if args = [] then failure (''rmdir: missing operand'' @ nl) cwd 2 w
      else rmdir_loop args cwd w)"

subsection \<open>echo, cat, head, tail, touch\<close>

text \<open>\<open>args.index(x)\<close> for an \<open>x\<close> that occurs in \<open>args\<close>.\<close>

definition index_of :: "string \<Rightarrow> string list \<Rightarrow> nat" where
  "index_of x args = length (takeWhile (\<lambda>a. a \<noteq> x) args)"

definition echo :: "string list \<Rightarrow> string \<Rightarrow> world \<Rightarrow> result io" where
  "echo args cwd w =
     (if ''>'' \<in> set args then
        (let idx = index_of ''>'' args;
             text = str_join '' '' (take idx args)
         in if \<not> idx + 1 < length args then
              failure (''echo: redirection error: '' @ ''list index out of range'' @ nl) cwd 1 w
            else
              (case write_text False (path_resolve (args ! (idx + 1)) cwd) (text @ nl) w of
                 (Inl e, w1) \<Rightarrow> failure (''echo: redirection error: '' @ exn_str e @ nl) cwd 1 w1
               | (Inr u, w1) \<Rightarrow> ok [] cwd w1))
      else if ''>>'' \<in> set args then
        (let idx = index_of ''>>'' args;
             text = str_join '' '' (take idx args)
         in if \<not> idx + 1 < length args then
              failure (''echo: redirection error: '' @ ''list index out of range'' @ nl) cwd 1 w
            else
              (case write_text True (path_resolve (args ! (idx + 1)) cwd) (text @ nl) w of
                 (Inl e, w1) \<Rightarrow> failure (''echo: redirection error: '' @ exn_str e @ nl) cwd 1 w1
               | (Inr u, w1) \<Rightarrow> ok [] cwd w1))
      else ok (str_join '' '' args @ nl) cwd w)"

fun cat_loop :: "string list \<Rightarrow> string list \<Rightarrow> string \<Rightarrow> world \<Rightarrow> result io" where
  "cat_loop [] out_lines cwd w = ok (str_join nl out_lines) cwd w"
| "cat_loop (a # rest) out_lines cwd w =
     (let p = path_resolve a cwd in
      if \<not> path_exists w p then
        failure (''cat: '' @ a @ '': No such file or directory'' @ nl) cwd 1 w
      else if isdir w p then failure (''cat: '' @ a @ '': Is a directory'' @ nl) cwd 1 w
      else
        (case read_text w p of
           Inl e \<Rightarrow> (Inl e, w)
         | Inr s \<Rightarrow> cat_loop rest (out_lines @ [s]) cwd w))"

definition cat :: "string list \<Rightarrow> string \<Rightarrow> world \<Rightarrow> result io" where
  "cat args cwd w =
     (if args = [] then failure (''cat: missing file operand'' @ nl) cwd 2 w
      else cat_loop args [] cwd w)"

definition head :: "string list \<Rightarrow> string \<Rightarrow> world \<Rightarrow> result io" where
  "head args cwd w =
     (if args = [] then failure (''head: missing file operand'' @ nl) cwd 2 w
      else
        (let path = path_resolve (hd args) cwd in
         if \<not> path_exists w path then
           failure (''head: '' @ hd args @ '': No such file or directory'' @ nl) cwd 1 w
         else if isdir w path then
           failure (''head: '' @ hd args @ '': Is a directory'' @ nl) cwd 1 w
         else
           (case read_text w path of
              Inl e \<Rightarrow> (Inl e, w)
            | Inr s \<Rightarrow> ok (concat (take 10 (readlines s))) cwd w)))"

definition tail :: "string list \<Rightarrow> string \<Rightarrow> world \<Rightarrow> result io" where
  "tail args cwd w =
     (if args = [] then failure (''tail: missing file operand'' @ nl) cwd 2 w
      else
        (let path = path_resolve (hd args) cwd in
         if \<not> path_exists w path then
           failure (''tail: '' @ hd args @ '': No such file or directory'' @ nl) cwd 1 w
         else if isdir w path then
           failure (''tail: '' @ hd args @ '': Is a directory'' @ nl) cwd 1 w
         else
           (case read_text w path of
              Inl e \<Rightarrow> (Inl e, w)
            | Inr s \<Rightarrow>
                (let lines = readlines s
                 in ok (concat (drop (length lines - 10) lines)) cwd w))))"

fun touch_loop :: "string list \<Rightarrow> string \<Rightarrow> world \<Rightarrow> result io" where
  "touch_loop [] cwd w = ok [] cwd w"
| "touch_loop (a # rest) cwd w =
     (let p = path_resolve a cwd; dirp = dirname p in
      case (if dirp \<noteq> [] \<and> \<not> path_exists w dirp then makedirs dirp True w else (Inr (), w)) of
        (Inl e, w1) \<Rightarrow> (Inl e, w1)
      | (Inr u, w1) \<Rightarrow>
          (case write_text True p [] w1 of
             (Inl e, w2) \<Rightarrow> (Inl e, w2)
           | (Inr u2, w2) \<Rightarrow> touch_loop rest cwd w2))"

definition touch :: "string list \<Rightarrow> string \<Rightarrow> world \<Rightarrow> result io" where
  "touch args cwd w =
     (if args = [] then failure (''touch: missing file operand'' @ nl) cwd 2 w
      else touch_loop args cwd w)"

subsection \<open>mv and cp\<close>

fun mv_loop :: "string list \<Rightarrow> string \<Rightarrow> string \<Rightarrow> world \<Rightarrow> result io" where
  "mv_loop [] dest cwd w = ok [] cwd w"
| "mv_loop (s # rest) dest cwd w =
     (if \<not> path_exists w s then
        failure (''mv: cannot stat '' @ quote s @ '': No such file or directory'' @ nl) cwd 1 w
      else
        (case (if isdir w dest then move s (join dest (basename s)) w else move s dest w) of
           (Inl e, w1) \<Rightarrow> (Inl e, w1)
         | (Inr u, w1) \<Rightarrow> mv_loop rest dest cwd w1))"

definition mv :: "string list \<Rightarrow> string \<Rightarrow> world \<Rightarrow> result io" where
  "mv args cwd w =
     (if length args < 2 then failure (''mv: missing file operands'' @ nl) cwd 2 w
      else
        (let srcs = map (\<lambda>a. path_resolve a cwd) (butlast args);
             dest = path_resolve (last args) cwd
         in if length srcs > 1 \<and> \<not> isdir w dest then
              failure (''mv: target is not a directory'' @ nl) cwd 1 w
            else
              (case mv_loop srcs dest cwd w of
                 (Inl e, w1) \<Rightarrow> failure (''mv error: '' @ exn_str e @ nl) cwd 1 w1
               | (Inr r, w1) \<Rightarrow> (Inr r, w1))))"

fun cp_loop :: "string list \<Rightarrow> string \<Rightarrow> bool \<Rightarrow> string \<Rightarrow> world \<Rightarrow> result io" where
  "cp_loop [] dest recursive cwd w = ok [] cwd w"
| "cp_loop (s # rest) dest recursive cwd w =
     (if \<not> path_exists w s then
        failure (''cp: cannot stat '' @ quote s @ '': No such file or directory'' @ nl) cwd 1 w
      else if isdir w s then
        (if \<not> recursive then
           failure (''cp: -r not specified; omitting directory '' @ quote s @ nl) cwd 1 w
         else
           (case copytree s (join dest (basename s)) w of
              (Inl e, w1) \<Rightarrow> (Inl e, w1)
            | (Inr u, w1) \<Rightarrow> cp_loop rest dest recursive cwd w1))
      else
        (case (if isdir w dest then copy2 s (join dest (basename s)) w else copy2 s dest w) of
           (Inl e, w1) \<Rightarrow> (Inl e, w1)
         | (Inr u, w1) \<Rightarrow> cp_loop rest dest recursive cwd w1))"

definition cp :: "string list \<Rightarrow> string \<Rightarrow> world \<Rightarrow> result io" where
  "cp args cwd w =
     (if length args < 2 then failure (''cp: missing file operands'' @ nl) cwd 2 w
      else
        (let recursive = (''-r'' \<in> set args);
             files = filter (\<lambda>a. a \<noteq> ''-r'') args
         in if length files < 2 then
              failure (''cp: missing destination file operand after source'' @ nl) cwd 2 w
            else
              (let srcs = map (\<lambda>a. path_resolve a cwd) (butlast files);
                   dest = path_resolve (last files) cwd
               in if length srcs > 1 \<and> \<not> isdir w dest then
                    failure (''cp: target is not a directory'' @ nl) cwd 1 w
                  else
                    (case cp_loop srcs dest recursive cwd w of
                       (Inl e, w1) \<Rightarrow> failure (''cp error: '' @ exn_str e @ nl) cwd 1 w1
                     | (Inr r, w1) \<Rightarrow> (Inr r, w1)))))"

subsection \<open>System queries\<close>

definition cpu :: "world \<Rightarrow> result io" where
  "cpu w =
     (case cpu_percent w of
        Inl e \<Rightarrow> (Inl e, w)
      | Inr perc \<Rightarrow> (Inr (''CPU: '' @ perc @ ''%'' @ nl, [], None, 0), w))"

definition mem :: "world \<Rightarrow> result io" where
  "mem w =
     (case virtual_memory w of
        Inl e \<Rightarrow> (Inl e, w)
      | Inr (used, tot, percent) \<Rightarrow>
          (Inr (''Memory: '' @ used @ ''/'' @ tot @ '' bytes ('' @ percent @ ''%)'' @ nl,
                [], None, 0), w))"

definition ps :: "string list \<Rightarrow> world \<Rightarrow> result io" where
  "ps args w =
     (case process_lines w of
        Inl e \<Rightarrow> (Inl e, w)
      | Inr procs \<Rightarrow>
          (let procs_sorted = take 200 (sort procs)
           in (Inr (str_join nl procs_sorted @ nl, [], None, 0), w)))"

definition whoami :: "string \<Rightarrow> world \<Rightarrow> result io" where
  "whoami cwd w = ok ((case env_USER w of None \<Rightarrow> ''user'' | Some u \<Rightarrow> u) @ nl) cwd w"

definition date :: "string \<Rightarrow> world \<Rightarrow> result io" where
  "date cwd w = ok (clock_text w @ nl) cwd w"

definition uptime :: "string \<Rightarrow> world \<Rightarrow> result io" where
  "uptime cwd w =
     (case uptime_delta w of
        Inl e \<Rightarrow> (Inl e, w)
      | Inr delta \<Rightarrow>
          (let hrs = delta div 3600; rem = delta mod 3600;
               mins = rem div 60; secs = rem mod 60
           in ok (''up '' @ show_int hrs @ ''h '' @ show_int mins @ ''m '' @ show_int secs @ ''s'' @ nl)
                cwd w))"

definition help_text :: string where
  "help_text =
     ''Supported commands:'' @ nl
     @ ''  pwd, ls [-l] [path], cd <path>, mkdir <name>, rmdir <name>, rm [-r] <path>'' @ nl
     @ ''  cat <file>, touch <file>, mv <src> <dest>, cp [-r] <src> <dest>'' @ nl
     @ ''  echo [text] [> file] [>> file], head <file>, tail <file>'' @ nl
     @ ''  cpu, mem, ps, whoami, date, uptime'' @ nl
     @ ''  clear, help'' @ nl"

section \<open>The dispatcher\<close>

text \<open>The chain of comparisons inside the \<open>try\<close> of \<open>run\<close>.\<close>

definition dispatch :: "string \<Rightarrow> string list \<Rightarrow> string \<Rightarrow> world \<Rightarrow> result io" where
  "dispatch cmd args cwd w =
     (if cmd = ''pwd'' then ok (cwd @ nl) cwd w
      else if cmd = ''ls'' then ls args cwd w
      else if cmd = ''cd'' then cd args cwd w
      else if cmd = ''mkdir'' then mkdir args cwd w
      else if cmd = ''rm'' then rm args cwd w
      else if cmd = ''rmdir'' then rmdir args cwd w
      else if cmd = ''cat'' then cat args cwd w
      else if cmd = ''touch'' then touch args cwd w
      else if cmd = ''mv'' then mv args cwd w
      else if cmd = ''cp'' then cp args cwd w
      else if cmd = ''echo'' then echo args cwd w
      else if cmd = ''cpu'' then cpu w
      else if cmd = ''mem'' then mem w
      else if cmd = ''ps'' then ps args w
      else if cmd = ''whoami'' then whoami cwd w
      else if cmd = ''date'' then date cwd w
      else if cmd = ''uptime'' then uptime cwd w
      else if cmd = ''head'' then head args cwd w
      else if cmd = ''tail'' then tail args cwd w
      else if cmd = ''clear'' then ok ''__CLEAR__'' cwd w
      else if cmd = ''help'' \<or> cmd = ''--help'' \<or> cmd = ''-h'' then ok help_text cwd w
      else failure (''Command not found: '' @ cmd @ nl) cwd 127 w)"

definition builtin_names :: "string list" where
  "builtin_names =
     [''pwd'', ''ls'', ''cd'', ''mkdir'', ''rm'', ''rmdir'', ''cat'', ''touch'', ''mv'', ''cp'',
      ''echo'', ''cpu'', ''mem'', ''ps'', ''whoami'', ''date'', ''uptime'', ''head'', ''tail'',
      ''clear'', ''help'', ''--help'', ''-h'']"

text \<open>
  \<open>run\<close>: without a working directory, \<open>/tmp\<close> is made first, outside any \<open>try\<close>; the
  handler runs inside the \<open>try\<close>, whose \<open>except Exception\<close> gives the error result.
\<close>

definition run :: "string \<Rightarrow> string option \<Rightarrow> world \<Rightarrow> result io" where
  "run raw_cmd cwd_arg w =
     (case (case cwd_arg of
              Some c \<Rightarrow> (Inr c, w)
            | None \<Rightarrow>
                (case makedirs ''/tmp'' True w of
                   (Inl e, w0) \<Rightarrow> (Inl e, w0)
                 | (Inr u, w0) \<Rightarrow> (Inr ''/tmp'', w0))) of
        (Inl e, w0) \<Rightarrow> (Inl e, w0)
      | (Inr cwd, w0) \<Rightarrow>
          (let raw = strip raw_cmd in
           if raw = [] then (Inr ([], [], Some cwd, 0), w0)
           else
             (case shlex_split raw of
                Inl e \<Rightarrow> (Inr ([], ''parse error: '' @ exn_str e, Some cwd, 2), w0)
              | Inr parts \<Rightarrow>
                  (case parts of
                     [] \<Rightarrow> (Inl (Exn IndexError ''list index out of range''), w0)
                   | cmd # args \<Rightarrow>
                       (case dispatch cmd args cwd w0 of
                          (Inl e, w1) \<Rightarrow> (Inr ([], ''Error: '' @ exn_str e @ nl, Some cwd, 1), w1)
                        | (Inr r, w1) \<Rightarrow> (Inr r, w1))))))"

section \<open>A small world for examples\<close>

text \<open>
  A directory \<open>/w\<close> with a directory \<open>a\<close> (holding a file \<open>x\<close>) and a file \<open>f\<close>; the
  home directory is given as \<open>/w/./a\<close>.
\<close>

definition example_world :: world where
  "example_world =
     \<lparr>root = Dir [(''w'', Dir [(''a'', Dir [(''x'', File ''hi'')]), (''f'', File ''data'')])],
      pcwd = [], env_HOME = Some ''/w/./a'', pw_dir = None, env_USER = None,
      clock_text = ''2024-01-01 00:00:00'', uptime_delta = Inr 3725,
      cpu_percent = Inr ''1.0'', virtual_memory = Inr (''1'', ''2'', ''50.0''),
      process_lines = Inr [''b'', ''a''], st_size_dir = 4096\<rparr>"

section \<open>The shape of results\<close>

text \<open>
  A result is well formed for a working directory when it is a success with empty
  stderr, or a failure with empty stdout, a message on stderr and the working directory
  given. An outcome echoes the working directory when it is an exception, or a well-formed
  result whose third component is that directory.
\<close>

definition well_formed :: "string \<Rightarrow> result \<Rightarrow> bool" where
  "well_formed cwd r =
     (case r of (out, err, c, code) \<Rightarrow>
        (code = 0 \<and> err = []) \<or> (code \<noteq> 0 \<and> out = [] \<and> err \<noteq> [] \<and> c = Some cwd))"

definition echoes :: "string \<Rightarrow> result io \<Rightarrow> bool" where
  "echoes cwd x =
     (case fst x of
        Inl e \<Rightarrow> True
      | Inr r \<Rightarrow> well_formed cwd r \<and> fst (snd (snd r)) = Some cwd)"


text \<open>The example world with a home directory that does not exist.\<close>

definition homeless_world :: world where
  "homeless_world = example_world\<lparr>env_HOME := Some ''/nowhere''\<rparr>"

section \<open>Normalised paths\<close>

text \<open>
  A name that can stand as a component of a normalised path, and the path made of a
  root (one or two slashes) and such names.
\<close>

definition valid_name :: "string \<Rightarrow> bool" where
  "valid_name n = (n \<noteq> [] \<and> n \<noteq> ''.'' \<and> n \<noteq> ''..'' \<and> CHR ''/'' \<notin> set n)"

definition render :: "string \<Rightarrow> string list \<Rightarrow> string" where
  "render r ns = r @ str_join ''/'' ns"

section \<open>The lines of the round trip\<close>

text \<open>The raw line \<open>echo "hello" > f.txt\<close>, the quotation marks written as characters.\<close>

definition echo_hello_line :: string where
  "echo_hello_line = ''echo '' @ [CHR 0x22] @ ''hello'' @ [CHR 0x22] @ '' > f.txt''"

(*DEFS-END*)

section \<open>Properties of the dispatcher\<close>

subsection \<open>Stripping and tokens\<close>

lemma strip_blank: "(\<forall>c\<in>set raw. py_isspace c) \<Longrightarrow> strip raw = []"
proof -
  assume "\<forall>c\<in>set raw. py_isspace c"
  then show ?thesis by (auto simp: strip_def dest: set_dropWhileD)
qed

lemma strip_empty_blank: "strip raw = [] \<Longrightarrow> (\<forall>c\<in>set raw. py_isspace c)"
proof -
  assume "strip raw = []"
  then have "dropWhile py_isspace (rev (dropWhile py_isspace raw)) = []"
    by (simp add: strip_def)
  then have a: "\<forall>c\<in>set (dropWhile py_isspace raw). py_isspace c"
    by (metis dropWhile_eq_Nil_conv set_rev)
  have "dropWhile py_isspace raw = []"
  proof (rule ccontr)
    assume n: "dropWhile py_isspace raw \<noteq> []"
    then have "\<not> py_isspace (hd (dropWhile py_isspace raw))" by (rule hd_dropWhile)
    with a n show False by (metis hd_in_set)
  qed
  then show ?thesis by (metis dropWhile_eq_Nil_conv)
qed

lemma shlex_split_Nil: "shlex_split [] = Inr []"
  by (simp add: shlex_split_def emit_def)

text \<open>With a working directory given and a tokenised line, \<open>run\<close> is the dispatch inside its \<open>try\<close>.\<close>

lemma run_tokens:
  assumes "shlex_split (strip raw) = Inr (cmd # args)"
  shows "run raw (Some cwd) w =
     (case dispatch cmd args cwd w of
        (Inl e, w1) \<Rightarrow> (Inr ([], ''Error: '' @ exn_str e @ nl, Some cwd, 1), w1)
      | (Inr r, w1) \<Rightarrow> (Inr r, w1))"
proof -
  from assms have "strip raw \<noteq> []" by (auto simp: shlex_split_Nil)
  with assms show ?thesis by (simp add: run_def)
qed

subsection \<open>The path resolver\<close>

text \<open>
  C3: for an absolute path \<open>p\<close>, \<open>_path_resolve(p, cwd)\<close> is \<open>normpath(p)\<close>, whatever the
  working directory; for a relative path it is \<open>normpath(join(cwd, p))\<close>. The function
  is total: it has no error case.
\<close>

theorem path_resolve_spec:
  "(isabs p \<longrightarrow> path_resolve p cwd = normpath p \<and> path_resolve p cwd = path_resolve p cwd')
   \<and> (\<not> isabs p \<longrightarrow> path_resolve p cwd = normpath (join cwd p))"
  by (simp add: path_resolve_def)

theorem path_resolve_spec_witness:
  "isabs ''/a/../b'' \<and> path_resolve ''/a/../b'' ''/w'' = ''/b''
   \<and> path_resolve ''/a/../b'' ''/v'' = ''/b''
   \<and> \<not> isabs ''x/./y'' \<and> path_resolve ''x/./y'' ''/w'' = ''/w/x/y''"
  using path_resolve_spec [of "''/a/../b''" "''/w''" "''/v''"]
    path_resolve_spec [of "''x/./y''" "''/w''" "''/v''"]
  by code_simp

subsection \<open>Blank lines and unknown commands\<close>

text \<open>
  C9: a raw line that is empty or holds only whitespace gives \<open>("", "", cwd, 0)\<close>, and the
  world is as it was: no handler ran.
\<close>

theorem run_blank:
  "\<forall>c\<in>set raw. py_isspace c \<Longrightarrow> run raw (Some cwd) w = (Inr ([], [], Some cwd, 0), w)"
  by (simp add: run_def strip_blank)

theorem run_blank_witness:
  "py_isspace CHR '' '' \<and> py_isspace (CHR 0x09) \<and> py_isspace (CHR 0xA0)
   \<and> run [CHR '' '', CHR 0x09, CHR 0xA0] (Some ''/w'') example_world
       = (Inr ([], [], Some ''/w'', 0), example_world)"
  using run_blank [of "[CHR '' '', CHR 0x09, CHR 0xA0]" "''/w''" example_world]
  by (simp add: py_isspace_def)

text \<open>
  C8: when the first token is none of the built-in names, the result is empty stdout,
  stderr \<open>Command not found: <name>\<close> with a newline, the working directory given, and
  exit code 127; the world is untouched.
\<close>

theorem run_unknown:
  "shlex_split (strip raw) = Inr (cmd # args) \<Longrightarrow> cmd \<notin> set builtin_names \<Longrightarrow>
   run raw (Some cwd) w = (Inr ([], ''Command not found: '' @ cmd @ nl, Some cwd, 127), w)"
  by (simp add: run_tokens dispatch_def builtin_names_def failure_def)

theorem run_unknown_witness:
  "shlex_split (strip ''foo bar'') = Inr [''foo'', ''bar''] \<and> ''foo'' \<notin> set builtin_names
   \<and> run ''foo bar'' (Some ''/w'') example_world
       = (Inr ([], ''Command not found: foo'' @ nl, Some ''/w'', 127), example_world)"
proof -
  have h1: "shlex_split (strip ''foo bar'') = Inr [''foo'', ''bar'']" by code_simp
  have h2: "''foo'' \<notin> set builtin_names" by (simp add: builtin_names_def)
  show ?thesis using h1 h2 run_unknown [OF h1 h2, of "''/w''" example_world] by simp
qed

subsection \<open>ls on a missing target\<close>

text \<open>
  C7: when the target of \<open>ls\<close> (the path argument resolved, or the working directory)
  does not exist, the result is exit code 2, empty stdout, the working directory given,
  and the stderr line \<open>ls: cannot access '<target>': No such file or directory\<close>.
\<close>

theorem ls_missing:
  "shlex_split (strip raw) = Inr (''ls'' # args) \<Longrightarrow> \<not> path_exists w (ls_target args cwd) \<Longrightarrow>
   run raw (Some cwd) w =
     (Inr ([], ''ls: cannot access '' @ quote (ls_target args cwd) @ '': No such file or directory'' @ nl,
           Some cwd, 2), w)"
  by (simp add: run_tokens dispatch_def ls_def failure_def)

theorem ls_missing_witness:
  "shlex_split (strip ''ls -l nope'') = Inr [''ls'', ''-l'', ''nope'']
   \<and> \<not> path_exists example_world (ls_target [''-l'', ''nope''] ''/w'')
   \<and> run ''ls -l nope'' (Some ''/w'') example_world
       = (Inr ([], ''ls: cannot access '' @ quote ''/w/nope'' @ '': No such file or directory'' @ nl,
               Some ''/w'', 2), example_world)"
proof -
  have h1: "shlex_split (strip ''ls -l nope'') = Inr [''ls'', ''-l'', ''nope'']" by code_simp
  have h2: "\<not> path_exists example_world (ls_target [''-l'', ''nope''] ''/w'')" by code_simp
  have h3: "ls_target [''-l'', ''nope''] ''/w'' = ''/w/nope''" by code_simp
  show ?thesis using h1 h2 ls_missing [OF h1 h2] by (simp add: h3)
qed

subsection \<open>mv with several sources\<close>

text \<open>
  C5: \<open>mv\<close> with two or more sources and a destination that is not an existing
  directory gives the stderr line \<open>mv: target is not a directory\<close>, exit code 1 and the
  working directory given, and leaves the filesystem as it was.
\<close>

theorem mv_multi:
  "shlex_split (strip raw) = Inr (''mv'' # args) \<Longrightarrow> 3 \<le> length args \<Longrightarrow>
   \<not> isdir w (path_resolve (last args) cwd) \<Longrightarrow>
   run raw (Some cwd) w = (Inr ([], ''mv: target is not a directory'' @ nl, Some cwd, 1), w)"
  by (auto simp: run_tokens dispatch_def mv_def failure_def Let_def)

theorem mv_multi_witness:
  "shlex_split (strip ''mv a x y f'') = Inr [''mv'', ''a'', ''x'', ''y'', ''f'']
   \<and> 3 \<le> length [''a'', ''x'', ''y'', ''f'']
   \<and> \<not> isdir example_world (path_resolve (last [''a'', ''x'', ''y'', ''f'']) ''/w'')
   \<and> run ''mv a x y f'' (Some ''/w'') example_world
       = (Inr ([], ''mv: target is not a directory'' @ nl, Some ''/w'', 1), example_world)"
proof -
  have h1: "shlex_split (strip ''mv a x y f'') = Inr [''mv'', ''a'', ''x'', ''y'', ''f'']"
    by code_simp
  have h2: "3 \<le> length [''a'', ''x'', ''y'', ''f'']" by simp
  have h3: "\<not> isdir example_world (path_resolve (last [''a'', ''x'', ''y'', ''f'']) ''/w'')"
    by code_simp
  show ?thesis using h1 h2 h3 mv_multi [OF h1 h2 h3] by simp
qed

subsection \<open>echo with a redirection\<close>

lemma index_of_first: "x \<notin> set pre \<Longrightarrow> index_of x (pre @ x # rest) = length pre"
  by (induction pre) (auto simp: index_of_def)

lemma echo_gt:
  assumes "''>'' \<notin> set pre"
  shows "echo (pre @ ''>'' # t # rest) cwd w =
     (case write_text False (path_resolve t cwd) (str_join '' '' pre @ nl) w of
        (Inl e, w1) \<Rightarrow> (Inr ([], ''echo: redirection error: '' @ exn_str e @ nl, Some cwd, 1), w1)
      | (Inr u, w1) \<Rightarrow> (Inr ([], [], Some cwd, 0), w1))"
  using assms
  by (simp add: echo_def index_of_first Let_def nth_append ok_def failure_def split: prod.splits sum.splits)

lemma echo_gtgt:
  assumes "''>'' \<notin> set pre" "''>'' \<noteq> t" "''>'' \<notin> set rest" "''>>'' \<notin> set pre"
  shows "echo (pre @ ''>>'' # t # rest) cwd w =
     (case write_text True (path_resolve t cwd) (str_join '' '' pre @ nl) w of
        (Inl e, w1) \<Rightarrow> (Inr ([], ''echo: redirection error: '' @ exn_str e @ nl, Some cwd, 1), w1)
      | (Inr u, w1) \<Rightarrow> (Inr ([], [], Some cwd, 0), w1))"
  using assms
  by (simp add: echo_def index_of_first Let_def nth_append ok_def failure_def split: prod.splits sum.splits)

lemma echo_gt_last:
  assumes "''>'' \<notin> set pre"
  shows "echo (pre @ [''>'']) cwd w =
     (Inr ([], ''echo: redirection error: list index out of range'' @ nl, Some cwd, 1), w)"
  using assms by (simp add: echo_def index_of_first Let_def failure_def)

lemma echo_gtgt_last:
  assumes "''>'' \<notin> set pre" "''>>'' \<notin> set pre"
  shows "echo (pre @ [''>>'']) cwd w =
     (Inr ([], ''echo: redirection error: list index out of range'' @ nl, Some cwd, 1), w)"
  using assms by (simp add: echo_def index_of_first Let_def failure_def)

text \<open>
  C10: \<open>echo\<close> looks for \<open>>\<close> first and for \<open>>>\<close> only when no \<open>>\<close> is among the
  arguments, and takes the first occurrence. The words before it, joined by spaces and
  ended by a newline, are written to the one token after it; what follows that token
  changes nothing, and the exit code is 0 when the write succeeds. When that first
  occurrence is the last token, no target follows: the result is exit code 1 with the
  message \<open>echo: redirection error: list index out of range\<close>, and the world is as it
  was, so no file was made.
\<close>

theorem echo_redirection:
  "(''>'' \<notin> set pre \<longrightarrow>
      echo (pre @ ''>'' # t # rest) cwd w =
        (case write_text False (path_resolve t cwd) (str_join '' '' pre @ nl) w of
           (Inl e, w1) \<Rightarrow> (Inr ([], ''echo: redirection error: '' @ exn_str e @ nl, Some cwd, 1), w1)
         | (Inr u, w1) \<Rightarrow> (Inr ([], [], Some cwd, 0), w1))
      \<and> echo (pre @ [''>'']) cwd w =
          (Inr ([], ''echo: redirection error: list index out of range'' @ nl, Some cwd, 1), w))
   \<and> (''>'' \<notin> set pre \<and> ''>>'' \<notin> set pre \<longrightarrow>
        echo (pre @ [''>>'']) cwd w =
          (Inr ([], ''echo: redirection error: list index out of range'' @ nl, Some cwd, 1), w))
   \<and> (''>'' \<notin> set pre \<and> ''>>'' \<notin> set pre \<and> ''>'' \<noteq> t \<and> ''>'' \<notin> set rest \<longrightarrow>
        echo (pre @ ''>>'' # t # rest) cwd w =
          (case write_text True (path_resolve t cwd) (str_join '' '' pre @ nl) w of
             (Inl e, w1) \<Rightarrow> (Inr ([], ''echo: redirection error: '' @ exn_str e @ nl, Some cwd, 1), w1)
           | (Inr u, w1) \<Rightarrow> (Inr ([], [], Some cwd, 0), w1)))"
  by (simp add: echo_gt echo_gtgt echo_gt_last echo_gtgt_last)

theorem echo_redirection_witness:
  "''>'' \<notin> set [''a'', ''>>'', ''b'']
   \<and> echo ([''a'', ''>>'', ''b''] @ ''>'' # ''out'' # [''junk'', ''>'', ''z'']) ''/w'' example_world
       = (Inr ([], [], Some ''/w'', 0),
          set_root example_world
            (Dir [(''w'', Dir [(''a'', Dir [(''x'', File ''hi'')]), (''f'', File ''data''),
                               (''out'', File (''a >> b'' @ nl))])]))
   \<and> echo ([''a'', ''>>'', ''b''] @ [''>'']) ''/w'' example_world
       = (Inr ([], ''echo: redirection error: list index out of range'' @ nl, Some ''/w'', 1),
          example_world)
   \<and> ''>'' \<notin> set [''hi''] \<and> ''>>'' \<notin> set [''hi''] \<and> ''>'' \<noteq> ''f'' \<and> ''>'' \<notin> set [''x'']
   \<and> echo ([''hi''] @ [''>>'']) ''/w'' example_world
       = (Inr ([], ''echo: redirection error: list index out of range'' @ nl, Some ''/w'', 1),
          example_world)
   \<and> echo ([''hi''] @ ''>>'' # ''f'' # [''x'']) ''/w'' example_world
       = (Inr ([], [], Some ''/w'', 0),
          set_root example_world
            (Dir [(''w'', Dir [(''a'', Dir [(''x'', File ''hi'')]), (''f'', File (''datahi'' @ nl))])]))"
proof -
  have a1: "''>'' \<notin> set [''a'', ''>>'', ''b'']" by simp
  have a2: "''>'' \<notin> set [''hi'']" and a3: "''>>'' \<notin> set [''hi'']"
    and a4: "''>'' \<noteq> ''f''" and a5: "''>'' \<notin> set [''x'']" by simp_all
  note t1 = echo_redirection [of "[''a'', ''>>'', ''b'']" "''out''" "[''junk'', ''>'', ''z'']"
      "''/w''" example_world]
  note t2 = echo_redirection [of "[''hi'']" "''f''" "[''x'']" "''/w''" example_world]
  have v1: "(case write_text False (path_resolve ''out'' ''/w'')
                 (str_join '' '' [''a'', ''>>'', ''b''] @ nl) example_world of
               (Inl e, w1) \<Rightarrow>
                 (Inr ([], ''echo: redirection error: '' @ exn_str e @ nl, Some ''/w'', 1), w1)
             | (Inr u, w1) \<Rightarrow> (Inr ([], [], Some ''/w'', 0), w1))
      = ((Inr ([], [], Some ''/w'', 0),
          set_root example_world
            (Dir [(''w'', Dir [(''a'', Dir [(''x'', File ''hi'')]), (''f'', File ''data''),
                               (''out'', File (''a >> b'' @ nl))])])) :: result io)"
    by code_simp
  have v2: "(case write_text True (path_resolve ''f'' ''/w'')
                 (str_join '' '' [''hi''] @ nl) example_world of
               (Inl e, w1) \<Rightarrow>
                 (Inr ([], ''echo: redirection error: '' @ exn_str e @ nl, Some ''/w'', 1), w1)
             | (Inr u, w1) \<Rightarrow> (Inr ([], [], Some ''/w'', 0), w1))
      = ((Inr ([], [], Some ''/w'', 0),
          set_root example_world
            (Dir [(''w'', Dir [(''a'', Dir [(''x'', File ''hi'')]), (''f'', File (''datahi'' @ nl))])])) :: result io)"
    by code_simp
  from t1 a1 v1 have c1: "echo ([''a'', ''>>'', ''b''] @ ''>'' # ''out'' # [''junk'', ''>'', ''z'']) ''/w'' example_world
       = (Inr ([], [], Some ''/w'', 0),
          set_root example_world
            (Dir [(''w'', Dir [(''a'', Dir [(''x'', File ''hi'')]), (''f'', File ''data''),
                               (''out'', File (''a >> b'' @ nl))])]))"
    by presburger
  from t1 a1 have c2: "echo ([''a'', ''>>'', ''b''] @ [''>'']) ''/w'' example_world
       = (Inr ([], ''echo: redirection error: list index out of range'' @ nl, Some ''/w'', 1),
          example_world)"
    by blast
  from t2 a2 a3 have c3: "echo ([''hi''] @ [''>>'']) ''/w'' example_world
       = (Inr ([], ''echo: redirection error: list index out of range'' @ nl, Some ''/w'', 1),
          example_world)"
    by blast
  from t2 a2 a3 a4 a5 v2 have c4: "echo ([''hi''] @ ''>>'' # ''f'' # [''x'']) ''/w'' example_world
       = (Inr ([], [], Some ''/w'', 0),
          set_root example_world
            (Dir [(''w'', Dir [(''a'', Dir [(''x'', File ''hi'')]), (''f'', File (''datahi'' @ nl))])]))"
    by presburger
  from a1 a2 a3 a4 a5 c1 c2 c3 c4 show ?thesis by blast
qed

subsection \<open>Every handler keeps the shape of results\<close>

lemma echoes_ok [simp]: "echoes cwd (ok out cwd w)"
  by (simp add: echoes_def ok_def well_formed_def)

lemma echoes_failure [simp]: "err \<noteq> [] \<Longrightarrow> code \<noteq> 0 \<Longrightarrow> echoes cwd (failure err cwd code w)"
  by (simp add: echoes_def failure_def well_formed_def)

lemma echoes_Inl [simp]: "echoes cwd (Inl e, w)"
  by (simp add: echoes_def)

lemma echoes_bind:
  "(\<And>u w1. echoes cwd (f u w1)) \<Longrightarrow>
   echoes cwd (case x of (Inl e, w1) \<Rightarrow> (Inl e, w1) | (Inr u, w1) \<Rightarrow> f u w1)"
  by (cases x) (auto split: sum.splits)

lemma echoes_ls: "echoes cwd (ls args cwd w)"
  by (simp add: ls_def Let_def split: sum.splits)

lemma echoes_mkdir_loop: "echoes cwd (mkdir_loop args cwd w)"
  by (induction args arbitrary: w) (simp_all split: prod.splits sum.splits)

lemma echoes_mkdir: "echoes cwd (mkdir args cwd w)"
  by (simp add: mkdir_def echoes_mkdir_loop)

lemma echoes_rm_loop: "echoes cwd (rm_loop paths recursive cwd w)"
  by (induction paths arbitrary: w) (simp_all add: Let_def echoes_bind)

lemma echoes_rm: "echoes cwd (rm args cwd w)"
  by (simp add: rm_def Let_def echoes_rm_loop)

lemma echoes_rmdir_loop: "echoes cwd (rmdir_loop args cwd w)"
  by (induction args arbitrary: w) (simp_all add: Let_def split: prod.splits sum.splits)

lemma echoes_rmdir: "echoes cwd (rmdir args cwd w)"
  by (simp add: rmdir_def echoes_rmdir_loop)

lemma echoes_cat_loop: "echoes cwd (cat_loop args out_lines cwd w)"
  by (induction args arbitrary: out_lines) (simp_all add: Let_def split: prod.splits sum.splits)

lemma echoes_cat: "echoes cwd (cat args cwd w)"
  by (simp add: cat_def echoes_cat_loop)

lemma echoes_touch_loop: "echoes cwd (touch_loop args cwd w)"
  by (induction args arbitrary: w) (simp_all add: Let_def split: prod.splits sum.splits)

lemma echoes_touch: "echoes cwd (touch args cwd w)"
  by (simp add: touch_def echoes_touch_loop)

lemma echoes_mv_loop: "echoes cwd (mv_loop srcs dest cwd w)"
  by (induction srcs arbitrary: w) (simp_all add: Let_def split: prod.splits sum.splits)

lemma echoes_mv: "echoes cwd (mv args cwd w)"
proof -
  have "echoes cwd (case x of (Inl e, w1) \<Rightarrow> failure (''mv error: '' @ exn_str e @ nl) cwd 1 w1
                     | (Inr r, w1) \<Rightarrow> (Inr r, w1))" if "echoes cwd x" for x
    using that by (cases x) (auto simp: echoes_def failure_def well_formed_def split: sum.splits)
  then show ?thesis by (simp add: mv_def Let_def echoes_mv_loop)
qed

lemma echoes_cp_loop_True: "echoes cwd (cp_loop srcs dest True cwd w)"
  by (induction srcs arbitrary: w) (simp_all add: echoes_bind)

lemma echoes_cp_loop_False: "echoes cwd (cp_loop srcs dest False cwd w)"
  by (induction srcs arbitrary: w) (simp_all add: echoes_bind)

lemma echoes_cp_loop: "echoes cwd (cp_loop srcs dest recursive cwd w)"
  by (cases recursive) (simp_all add: echoes_cp_loop_True echoes_cp_loop_False)

lemma echoes_cp: "echoes cwd (cp args cwd w)"
proof -
  have "echoes cwd (case x of (Inl e, w1) \<Rightarrow> failure (''cp error: '' @ exn_str e @ nl) cwd 1 w1
                     | (Inr r, w1) \<Rightarrow> (Inr r, w1))" if "echoes cwd x" for x
    using that by (cases x) (auto simp: echoes_def failure_def well_formed_def split: sum.splits)
  then show ?thesis by (simp add: cp_def Let_def echoes_cp_loop)
qed

lemma echoes_echo: "echoes cwd (echo args cwd w)"
  by (simp add: echo_def Let_def split: prod.splits sum.splits)

lemma echoes_head: "echoes cwd (head args cwd w)"
  by (simp add: head_def Let_def split: prod.splits sum.splits)

lemma echoes_tail: "echoes cwd (tail args cwd w)"
  by (simp add: tail_def Let_def split: prod.splits sum.splits)

lemma echoes_misc:
  "echoes cwd (whoami cwd w)" "echoes cwd (date cwd w)" "echoes cwd (uptime cwd w)"
  by (simp_all add: whoami_def date_def uptime_def Let_def split: sum.splits)


lemma cd_shape:
  "cd args cwd w = (Inr (out, err, c, code), w') \<Longrightarrow>
   w' = w \<and> well_formed cwd (out, err, c, code)
   \<and> (c = Some cwd
        \<or> (code = 0 \<and> c = Some (if args = [] then expanduser_tilde w else path_resolve (hd args) cwd)
            \<and> isdir w (if args = [] then expanduser_tilde w else path_resolve (hd args) cwd)))"
  by (auto simp: cd_def Let_def failure_def well_formed_def split: if_splits list.splits)

lemma sys_shape:
  "cpu w = (Inr (out, err, c, code), w') \<Longrightarrow> c = None \<and> code = 0 \<and> err = [] \<and> w' = w"
  "mem w = (Inr (out, err, c, code), w') \<Longrightarrow> c = None \<and> code = 0 \<and> err = [] \<and> w' = w"
  "ps args w = (Inr (out, err, c, code), w') \<Longrightarrow> c = None \<and> code = 0 \<and> err = [] \<and> w' = w"
  by (auto simp: cpu_def mem_def ps_def Let_def split: sum.splits prod.splits)

lemma echoes_dispatch:
  "cmd \<notin> {''cd'', ''cpu'', ''mem'', ''ps''} \<Longrightarrow> echoes cwd (dispatch cmd args cwd w)"
  by (simp add: dispatch_def echoes_ls echoes_mkdir echoes_rm echoes_rmdir echoes_cat
      echoes_touch echoes_mv echoes_cp echoes_echo echoes_head echoes_tail echoes_misc)

lemma dispatch_shape:
  assumes "dispatch cmd args cwd w = (Inr (out, err, c, code), w')"
  shows "well_formed cwd (out, err, c, code)
     \<and> (c = Some cwd
          \<or> (c = None \<and> code = 0 \<and> cmd \<in> {''cpu'', ''mem'', ''ps''})
          \<or> (cmd = ''cd'' \<and> code = 0 \<and> w' = w
              \<and> c = Some (if args = [] then expanduser_tilde w else path_resolve (hd args) cwd)
              \<and> isdir w (if args = [] then expanduser_tilde w else path_resolve (hd args) cwd)))"
proof (cases "cmd \<in> {''cd'', ''cpu'', ''mem'', ''ps''}")
  case False
  then have "echoes cwd (dispatch cmd args cwd w)" by (rule echoes_dispatch)
  with assms show ?thesis by (auto simp: echoes_def)
next
  case True
  then consider "cmd = ''cd''" | "cmd = ''cpu''" | "cmd = ''mem''" | "cmd = ''ps''" by auto
  then show ?thesis
  proof cases
    case 1
    with assms have "cd args cwd w = (Inr (out, err, c, code), w')" by (simp add: dispatch_def)
    from cd_shape [OF this] 1 show ?thesis by auto
  next
    case 2
    with assms have "cpu w = (Inr (out, err, c, code), w')" by (simp add: dispatch_def)
    from sys_shape(1) [OF this] 2 show ?thesis by (simp add: well_formed_def)
  next
    case 3
    with assms have "mem w = (Inr (out, err, c, code), w')" by (simp add: dispatch_def)
    from sys_shape(2) [OF this] 3 show ?thesis by (simp add: well_formed_def)
  next
    case 4
    with assms have "ps args w = (Inr (out, err, c, code), w')" by (simp add: dispatch_def)
    from sys_shape(3) [OF this] 4 show ?thesis by (simp add: well_formed_def)
  qed
qed

subsection \<open>A tokenised line has a first token\<close>

lemma lex_nonempty:
  "lex acc st esc quoted tok inp = Inr ts \<Longrightarrow>
   acc \<noteq> [] \<or> tok \<noteq> [] \<or> quoted \<or> st = InEscape \<or> (\<exists>q. st = InQuote q) \<Longrightarrow> ts \<noteq> []"
proof (induction acc st esc quoted tok inp arbitrary: ts rule: lex.induct)
  case (1 acc esc quoted token)
  then show ?case by (auto simp: emit_def)
next
  case (2 acc esc quoted token)
  then show ?case by (auto simp: emit_def)
next
  case (3 acc q esc quoted token)
  then show ?case by simp
next
  case (4 acc esc quoted token)
  then show ?case by simp
next
  case (5 acc esc quoted token c cs)
  note eq = "5.prems"(1) and pre = "5.prems"(2)
  show ?case
  proof (cases "shlex_whitespace c")
    case ws: True
    show ?thesis
    proof (cases "token \<noteq> [] \<or> quoted")
      case tq: True
      from eq ws tq have "lex (acc @ [token]) White White False [] cs = Inr ts" by simp
      from "5.IH"(1) [OF ws tq this] show ?thesis by simp
    next
      case tq: False
      from eq ws tq have e: "lex acc White esc quoted token cs = Inr ts" by simp
      from pre tq have "acc \<noteq> []" by simp
      with "5.IH"(2) [OF ws tq e] show ?thesis by simp
    qed
  next
    case ws: False
    show ?thesis
    proof (cases "shlex_escape c")
      case es: True
      from eq ws es have "lex acc InEscape Word quoted token cs = Inr ts" by simp
      from "5.IH"(3) [OF ws es this] show ?thesis by simp
    next
      case es: False
      show ?thesis
      proof (cases "shlex_quotes c")
        case qu: True
        from eq ws es qu have "lex acc (InQuote c) esc quoted token cs = Inr ts" by simp
        from "5.IH"(4) [OF ws es qu this] show ?thesis by simp
      next
        case qu: False
        from eq ws es qu have "lex acc Word esc quoted [c] cs = Inr ts" by simp
        from "5.IH"(5) [OF ws es qu this] show ?thesis by simp
      qed
    qed
  qed
next
  case (6 acc q esc quoted token c cs)
  note eq = "6.prems"(1)
  show ?case
  proof (cases "c = q")
    case cq: True
    from eq cq have "lex acc Word esc True token cs = Inr ts" by simp
    from "6.IH"(1) [OF cq this] show ?thesis by simp
  next
    case cq: False
    show ?thesis
    proof (cases "shlex_escape c \<and> shlex_escapedquotes q")
      case es: True
      from eq cq es have "lex acc InEscape (InQuote q) True token cs = Inr ts" by simp
      from "6.IH"(2) [OF cq es this] show ?thesis by simp
    next
      case es: False
      from eq cq es have "lex acc (InQuote q) esc True (token @ [c]) cs = Inr ts" by simp
      from "6.IH"(3) [OF cq es this] show ?thesis by simp
    qed
  qed
next
  case (7 acc esc quoted token c cs)
  from "7.prems"(1) have "lex acc esc esc quoted
      ((if (case esc of InQuote q \<Rightarrow> c \<noteq> CHR 0x5C \<and> c \<noteq> q | _ \<Rightarrow> False)
         then token @ [CHR 0x5C] else token) @ [c]) cs = Inr ts"
    by (simp add: Let_def)
  from "7.IH" [OF refl this] show ?case by simp
next
  case (8 acc esc quoted token c cs)
  note eq = "8.prems"(1) and pre = "8.prems"(2)
  show ?case
  proof (cases "shlex_whitespace c")
    case ws: True
    show ?thesis
    proof (cases "token \<noteq> [] \<or> quoted")
      case tq: True
      from eq ws tq have "lex (acc @ [token]) White White False [] cs = Inr ts" by simp
      from "8.IH"(1) [OF ws tq this] show ?thesis by simp
    next
      case tq: False
      from eq ws tq have e: "lex acc White esc quoted token cs = Inr ts" by simp
      from pre tq have "acc \<noteq> []" by simp
      with "8.IH"(2) [OF ws tq e] show ?thesis by simp
    qed
  next
    case ws: False
    show ?thesis
    proof (cases "shlex_quotes c")
      case qu: True
      from eq ws qu have "lex acc (InQuote c) esc quoted token cs = Inr ts" by simp
      from "8.IH"(3) [OF ws qu this] show ?thesis by simp
    next
      case qu: False
      show ?thesis
      proof (cases "shlex_escape c")
        case es: True
        from eq ws es qu have "lex acc InEscape Word quoted token cs = Inr ts" by simp
        from "8.IH"(4) [OF ws qu es this] show ?thesis by simp
      next
        case es: False
        from eq ws es qu have "lex acc Word esc quoted (token @ [c]) cs = Inr ts" by simp
        from "8.IH"(5) [OF ws qu es this] show ?thesis by simp
      qed
    qed
  qed
qed

lemma strip_hd: "strip raw \<noteq> [] \<Longrightarrow> \<not> py_isspace (hd (strip raw))"
proof -
  have a: "rev (dropWhile P (rev ys)) \<noteq> [] \<Longrightarrow> hd (rev (dropWhile P (rev ys))) = hd ys"
    for P :: "char \<Rightarrow> bool" and ys
    by (induction ys rule: rev_induct) (auto simp: hd_append)
  assume n: "strip raw \<noteq> []"
  then have m: "dropWhile py_isspace raw \<noteq> []" by (auto simp: strip_def dest: set_dropWhileD)
  from n a [of py_isspace "dropWhile py_isspace raw"]
  have "hd (strip raw) = hd (dropWhile py_isspace raw)" by (simp add: strip_def)
  with hd_dropWhile [OF m] show ?thesis by simp
qed

lemma shlex_whitespace_isspace: "shlex_whitespace c \<Longrightarrow> py_isspace c"
  by (auto simp: shlex_whitespace_def py_isspace_def)

lemma shlex_split_nonempty: "strip raw \<noteq> [] \<Longrightarrow> shlex_split (strip raw) \<noteq> Inr []"
proof
  assume n: "strip raw \<noteq> []" and e: "shlex_split (strip raw) = Inr []"
  from n obtain c cs where s: "strip raw = c # cs" by (cases "strip raw") auto
  with strip_hd [OF n] have "\<not> shlex_whitespace c" by (auto dest: shlex_whitespace_isspace)
  with e s have "lex [] InEscape Word False [] cs = Inr [] \<or> lex [] (InQuote c) White False [] cs = Inr []
      \<or> lex [] Word White False [c] cs = Inr []"
    by (auto simp: shlex_split_def split: if_splits)
  then show False by (auto dest: lex_nonempty)
qed

subsection \<open>The loops stop at the first failure\<close>

text \<open>
  A loop that came through a prefix of its arguments without failure goes on with the
  rest, in the world the prefix left.
\<close>

lemma ok_failure_neq [simp]: "ok out cwd w0 \<noteq> failure err cwd code w1 \<or> code = 0"
  by (auto simp: ok_def failure_def)

lemma ok_inj [simp]: "(ok out cwd w = ok out' cwd w0) = (out = out' \<and> w = w0)"
  by (auto simp: ok_def)

lemma mkdir_loop_prefix:
  "mkdir_loop pre cwd w = ok [] cwd w0 \<Longrightarrow> mkdir_loop (pre @ xs) cwd w = mkdir_loop xs cwd w0"
proof (induction pre arbitrary: w)
  case Nil
  then show ?case by simp
next
  case (Cons a pre)
  obtain x w1 where m: "makedirs (path_resolve a cwd) False w = (x, w1)"
    by (cases "makedirs (path_resolve a cwd) False w")
  show ?case
  proof (cases x)
    case (Inl e)
    with Cons.prems m show ?thesis by (auto simp: ok_def failure_def split: if_splits)
  next
    case (Inr u)
    with Cons.prems m have "mkdir_loop pre cwd w1 = ok [] cwd w0" by simp
    from Cons.IH [OF this] Inr m show ?thesis by simp
  qed
qed

lemma rmdir_loop_prefix:
  "rmdir_loop pre cwd w = ok [] cwd w0 \<Longrightarrow> rmdir_loop (pre @ xs) cwd w = rmdir_loop xs cwd w0"
proof (induction pre arbitrary: w)
  case Nil
  then show ?case by simp
next
  case (Cons a pre)
  obtain x w1 where m: "rmdir_os (path_resolve a cwd) w = (x, w1)"
    by (cases "rmdir_os (path_resolve a cwd) w")
  from Cons.prems have c: "path_exists w (path_resolve a cwd) \<and> isdir w (path_resolve a cwd)"
    by (auto simp: Let_def ok_def failure_def split: if_splits)
  show ?case
  proof (cases x)
    case (Inl e)
    with Cons.prems m c show ?thesis by (auto simp: Let_def ok_def failure_def split: if_splits)
  next
    case (Inr u)
    with Cons.prems m c have "rmdir_loop pre cwd w1 = ok [] cwd w0" by (simp add: Let_def)
    from Cons.IH [OF this] Inr m c show ?thesis by (simp add: Let_def)
  qed
qed

lemma rm_loop_prefix:
  "rm_loop pre rec cwd w = ok [] cwd w0 \<Longrightarrow> rm_loop (pre @ xs) rec cwd w = rm_loop xs rec cwd w0"
proof (induction pre arbitrary: w)
  case Nil
  then show ?case by simp
next
  case (Cons a pre)
  let ?rp = "path_resolve a cwd"
  obtain x w1 where m: "(if isdir w ?rp then rmtree ?rp w else remove_os ?rp w) = (x, w1)"
    by (cases "if isdir w ?rp then rmtree ?rp w else remove_os ?rp w")
  from Cons.prems have ex: "path_exists w ?rp"
    by (auto simp: Let_def ok_def failure_def split: if_splits)
  from Cons.prems have dr: "isdir w ?rp \<Longrightarrow> rec"
    by (auto simp: Let_def ok_def failure_def split: if_splits)
  have step: "rm_loop (a # ys) rec cwd w =
      (case x of Inl e \<Rightarrow> (Inl e, w1) | Inr u \<Rightarrow> rm_loop ys rec cwd w1)" for ys
  proof (cases "isdir w ?rp")
    case True
    with ex dr m show ?thesis by (cases x) (simp_all add: Let_def)
  next
    case False
    with ex m show ?thesis by (cases x) (simp_all add: Let_def)
  qed
  show ?case
  proof (cases x)
    case (Inl e)
    with Cons.prems step [of pre] show ?thesis by (simp add: ok_def)
  next
    case (Inr u)
    with Cons.prems step [of pre] have "rm_loop pre rec cwd w1 = ok [] cwd w0" by simp
    from Cons.IH [OF this] Inr step [of "pre @ xs"] show ?thesis by simp
  qed
qed


lemma touch_loop_prefix:
  "touch_loop pre cwd w = ok [] cwd w0 \<Longrightarrow> touch_loop (pre @ xs) cwd w = touch_loop xs cwd w0"
proof (induction pre arbitrary: w)
  case Nil
  then show ?case by simp
next
  case (Cons a pre)
  let ?p = "path_resolve a cwd"
  let ?prep = "if dirname ?p \<noteq> [] \<and> \<not> path_exists w (dirname ?p)
               then makedirs (dirname ?p) True w else (Inr (), w)"
  obtain x w1 where m: "?prep = (x, w1)" by (cases ?prep)
  obtain y w2 where n: "write_text True ?p [] w1 = (y, w2)" by (cases "write_text True ?p [] w1")
  have step: "touch_loop (a # ys) cwd w =
      (case x of Inl e \<Rightarrow> (Inl e, w1)
       | Inr u \<Rightarrow> (case y of Inl e \<Rightarrow> (Inl e, w2) | Inr u2 \<Rightarrow> touch_loop ys cwd w2))" for ys
    using m n by (cases x; cases y) (simp_all add: Let_def)
  show ?case
  proof (cases x)
    case (Inl e)
    with Cons.prems step [of pre] show ?thesis by (simp add: ok_def)
  next
    case x: (Inr u)
    show ?thesis
    proof (cases y)
      case (Inl e)
      with x Cons.prems step [of pre] show ?thesis by (simp add: ok_def)
    next
      case (Inr u2)
      with x Cons.prems step [of pre] have "touch_loop pre cwd w2 = ok [] cwd w0" by simp
      from Cons.IH [OF this] x Inr step [of "pre @ xs"] show ?thesis by simp
    qed
  qed
qed

lemma mv_loop_prefix:
  "mv_loop pre dest cwd w = ok [] cwd w0 \<Longrightarrow> mv_loop (pre @ xs) dest cwd w = mv_loop xs dest cwd w0"
proof (induction pre arbitrary: w)
  case Nil
  then show ?case by simp
next
  case (Cons s pre)
  let ?op = "if isdir w dest then move s (join dest (basename s)) w else move s dest w"
  obtain x w1 where m: "?op = (x, w1)" by (cases ?op)
  from Cons.prems have ex: "path_exists w s"
    by (auto simp: ok_def failure_def split: if_splits)
  have step: "mv_loop (s # ys) dest cwd w =
      (case x of Inl e \<Rightarrow> (Inl e, w1) | Inr u \<Rightarrow> mv_loop ys dest cwd w1)" for ys
    using ex m by (cases x) simp_all
  show ?case
  proof (cases x)
    case (Inl e)
    with Cons.prems step [of pre] show ?thesis by (simp add: ok_def)
  next
    case (Inr u)
    with Cons.prems step [of pre] have "mv_loop pre dest cwd w1 = ok [] cwd w0" by simp
    from Cons.IH [OF this] Inr step [of "pre @ xs"] show ?thesis by simp
  qed
qed

lemma cp_loop_prefix:
  "cp_loop pre dest rec cwd w = ok [] cwd w0 \<Longrightarrow>
   cp_loop (pre @ xs) dest rec cwd w = cp_loop xs dest rec cwd w0"
proof (induction pre arbitrary: w)
  case Nil
  then show ?case by simp
next
  case (Cons s pre)
  let ?op = "if isdir w s then copytree s (join dest (basename s)) w
             else if isdir w dest then copy2 s (join dest (basename s)) w else copy2 s dest w"
  obtain x w1 where m: "?op = (x, w1)" by (cases ?op)
  from Cons.prems have ex: "path_exists w s"
    by (auto simp: ok_def failure_def split: if_splits)
  from Cons.prems have dr: "isdir w s \<Longrightarrow> rec"
    by (auto simp: ok_def failure_def split: if_splits)
  have step: "cp_loop (s # ys) dest rec cwd w =
      (case x of Inl e \<Rightarrow> (Inl e, w1) | Inr u \<Rightarrow> cp_loop ys dest rec cwd w1)" for ys
  proof (cases "isdir w s")
    case True
    with ex dr m show ?thesis by (cases x) simp_all
  next
    case False
    with ex m show ?thesis by (cases x; cases "isdir w dest") simp_all
  qed
  show ?case
  proof (cases x)
    case (Inl e)
    with Cons.prems step [of pre] show ?thesis by (simp add: ok_def)
  next
    case (Inr u)
    with Cons.prems step [of pre] have "cp_loop pre dest rec cwd w1 = ok [] cwd w0" by simp
    from Cons.IH [OF this] Inr step [of "pre @ xs"] show ?thesis by simp
  qed
qed

lemma cat_loop_prefix:
  "\<forall>b\<in>set pre. path_exists w (path_resolve b cwd) \<and> \<not> isdir w (path_resolve b cwd) \<Longrightarrow>
   \<exists>out. cat_loop (pre @ xs) out_lines cwd w = cat_loop xs out cwd w"
proof (induction pre arbitrary: out_lines)
  case Nil
  show ?case by auto
next
  case (Cons b pre)
  from Cons.prems have e: "path_exists w (path_resolve b cwd)" and d: "\<not> isdir w (path_resolve b cwd)"
    by simp_all
  from e d obtain t where r: "read_text w (path_resolve b cwd) = Inr t"
    by (auto simp: path_exists_def isdir_def read_text_def split: sum.splits node.splits)
  from Cons.prems have "\<forall>b\<in>set pre. path_exists w (path_resolve b cwd) \<and> \<not> isdir w (path_resolve b cwd)"
    by simp
  from Cons.IH [OF this, of "out_lines @ [t]"] e d r show ?case by (simp add: Let_def)
qed

subsection \<open>What each error becomes\<close>

lemma walk_error: "walk r acc cs = Inl k \<Longrightarrow> k = FileNotFoundError \<or> k = NotADirectoryError"
  by (induction cs arbitrary: acc) (auto split: option.splits node.splits if_splits)

lemma resolve_error: "resolve w p = Inl k \<Longrightarrow> k = FileNotFoundError \<or> k = NotADirectoryError"
  by (auto simp: resolve_def split: if_splits dest: walk_error)

lemma rmdir_os_error: "rmdir_os p w = (Inl e, w1) \<Longrightarrow> is_OSError e"
  by (auto simp: rmdir_os_def is_OSError_def os_error_def busy_error_def
      split: sum.splits option.splits node.splits if_splits dest: resolve_error)

lemma dispatch_usage:
  "dispatch ''mkdir'' [] cwd w = (Inr ([], ''mkdir: missing operand'' @ nl, Some cwd, 2), w)"
  "dispatch ''rm'' [] cwd w = (Inr ([], ''rm: missing operand'' @ nl, Some cwd, 2), w)"
  "dispatch ''rmdir'' [] cwd w = (Inr ([], ''rmdir: missing operand'' @ nl, Some cwd, 2), w)"
  "dispatch ''cat'' [] cwd w = (Inr ([], ''cat: missing file operand'' @ nl, Some cwd, 2), w)"
  "dispatch ''head'' [] cwd w = (Inr ([], ''head: missing file operand'' @ nl, Some cwd, 2), w)"
  "dispatch ''tail'' [] cwd w = (Inr ([], ''tail: missing file operand'' @ nl, Some cwd, 2), w)"
  "dispatch ''touch'' [] cwd w = (Inr ([], ''touch: missing file operand'' @ nl, Some cwd, 2), w)"
  by (simp_all add: dispatch_def mkdir_def rm_def rmdir_def cat_def head_def tail_def touch_def
      failure_def)

lemma dispatch_usage2:
  "args \<noteq> [] \<Longrightarrow> filter (\<lambda>a. \<not> rm_flag a) args = [] \<Longrightarrow>
     dispatch ''rm'' args cwd w = (Inr ([], ''rm: missing path'' @ nl, Some cwd, 2), w)"
  "length args < 2 \<Longrightarrow>
     dispatch ''mv'' args cwd w = (Inr ([], ''mv: missing file operands'' @ nl, Some cwd, 2), w)"
  "length args < 2 \<Longrightarrow>
     dispatch ''cp'' args cwd w = (Inr ([], ''cp: missing file operands'' @ nl, Some cwd, 2), w)"
  "2 \<le> length args \<Longrightarrow> length (filter (\<lambda>a. a \<noteq> ''-r'') args) < 2 \<Longrightarrow>
     dispatch ''cp'' args cwd w
       = (Inr ([], ''cp: missing destination file operand after source'' @ nl, Some cwd, 2), w)"
  by (simp_all add: dispatch_def rm_def mv_def cp_def failure_def Let_def)

lemma dispatch_cd:
  "\<not> (path_exists w (expanduser_tilde w) \<and> isdir w (expanduser_tilde w)) \<Longrightarrow>
     dispatch ''cd'' [] cwd w = (Inl (Exn IndexError ''list index out of range''), w)"
  "\<not> path_exists w (path_resolve a cwd) \<Longrightarrow>
     dispatch ''cd'' (a # rest) cwd w
       = (Inr ([], ''cd: '' @ a @ '': No such file or directory'' @ nl, Some cwd, 1), w)"
  "path_exists w (path_resolve a cwd) \<Longrightarrow> \<not> isdir w (path_resolve a cwd) \<Longrightarrow>
     dispatch ''cd'' (a # rest) cwd w
       = (Inr ([], ''cd: '' @ a @ '': Not a directory'' @ nl, Some cwd, 1), w)"
  by (auto simp: dispatch_def cd_def failure_def Let_def)

lemma dispatch_ls:
  "\<not> path_exists w (ls_target args cwd) \<Longrightarrow>
     dispatch ''ls'' args cwd w
       = (Inr ([], ''ls: cannot access '' @ quote (ls_target args cwd)
               @ '': No such file or directory'' @ nl, Some cwd, 2), w)"
  by (simp add: dispatch_def ls_def failure_def)

lemma dispatch_head_tail:
  "\<not> path_exists w (path_resolve a cwd) \<Longrightarrow>
     dispatch ''head'' (a # rest) cwd w
       = (Inr ([], ''head: '' @ a @ '': No such file or directory'' @ nl, Some cwd, 1), w)"
  "path_exists w (path_resolve a cwd) \<Longrightarrow> isdir w (path_resolve a cwd) \<Longrightarrow>
     dispatch ''head'' (a # rest) cwd w
       = (Inr ([], ''head: '' @ a @ '': Is a directory'' @ nl, Some cwd, 1), w)"
  "\<not> path_exists w (path_resolve a cwd) \<Longrightarrow>
     dispatch ''tail'' (a # rest) cwd w
       = (Inr ([], ''tail: '' @ a @ '': No such file or directory'' @ nl, Some cwd, 1), w)"
  "path_exists w (path_resolve a cwd) \<Longrightarrow> isdir w (path_resolve a cwd) \<Longrightarrow>
     dispatch ''tail'' (a # rest) cwd w
       = (Inr ([], ''tail: '' @ a @ '': Is a directory'' @ nl, Some cwd, 1), w)"
  by (simp_all add: dispatch_def head_def tail_def failure_def Let_def)

lemma dispatch_cat:
  assumes "\<forall>b\<in>set pre. path_exists w (path_resolve b cwd) \<and> \<not> isdir w (path_resolve b cwd)"
  shows "\<not> path_exists w (path_resolve a cwd) \<Longrightarrow>
     dispatch ''cat'' (pre @ a # rest) cwd w
       = (Inr ([], ''cat: '' @ a @ '': No such file or directory'' @ nl, Some cwd, 1), w)"
    and "path_exists w (path_resolve a cwd) \<Longrightarrow> isdir w (path_resolve a cwd) \<Longrightarrow>
     dispatch ''cat'' (pre @ a # rest) cwd w
       = (Inr ([], ''cat: '' @ a @ '': Is a directory'' @ nl, Some cwd, 1), w)"
proof -
  from cat_loop_prefix [OF assms, of "a # rest" "[]"]
  obtain out where o: "cat_loop (pre @ a # rest) [] cwd w = cat_loop (a # rest) out cwd w" by blast
  show "\<not> path_exists w (path_resolve a cwd) \<Longrightarrow>
     dispatch ''cat'' (pre @ a # rest) cwd w
       = (Inr ([], ''cat: '' @ a @ '': No such file or directory'' @ nl, Some cwd, 1), w)"
    using o by (simp add: dispatch_def cat_def failure_def Let_def)
  show "path_exists w (path_resolve a cwd) \<Longrightarrow> isdir w (path_resolve a cwd) \<Longrightarrow>
     dispatch ''cat'' (pre @ a # rest) cwd w
       = (Inr ([], ''cat: '' @ a @ '': Is a directory'' @ nl, Some cwd, 1), w)"
    using o by (simp add: dispatch_def cat_def failure_def Let_def)
qed

lemma dispatch_env:
  "cpu_percent w = Inl e \<Longrightarrow> dispatch ''cpu'' args cwd w = (Inl e, w)"
  "virtual_memory w = Inl e \<Longrightarrow> dispatch ''mem'' args cwd w = (Inl e, w)"
  "process_lines w = Inl e \<Longrightarrow> dispatch ''ps'' args cwd w = (Inl e, w)"
  "uptime_delta w = Inl e \<Longrightarrow> dispatch ''uptime'' args cwd w = (Inl e, w)"
  by (simp_all add: dispatch_def cpu_def mem_def ps_def uptime_def)

lemma dispatch_mkdir:
  assumes "mkdir_loop pre cwd w = ok [] cwd w0"
    and "makedirs (path_resolve a cwd) False w0 = (Inl e, w1)"
  shows "dispatch ''mkdir'' (pre @ a # rest) cwd w =
     (if exn_class_of e = FileExistsError
      then (Inr ([], ''mkdir: cannot create directory '' @ quote a @ '': File exists'' @ nl, Some cwd, 1), w1)
      else (Inl e, w1))"
  using assms(2) mkdir_loop_prefix [OF assms(1), of "a # rest"]
  by (simp add: dispatch_def mkdir_def failure_def)

lemma dispatch_rm:
  assumes "filter (\<lambda>a. \<not> rm_flag a) args = pre @ p # rest"
    and "rm_loop pre (list_ex rm_flag args) cwd w = ok [] cwd w0"
  shows "\<not> path_exists w0 (path_resolve p cwd) \<Longrightarrow>
      dispatch ''rm'' args cwd w
        = (Inr ([], ''rm: cannot remove '' @ quote p @ '': No such file or directory'' @ nl, Some cwd, 1), w0)"
    and "path_exists w0 (path_resolve p cwd) \<Longrightarrow> isdir w0 (path_resolve p cwd) \<Longrightarrow>
      \<not> list_ex rm_flag args \<Longrightarrow>
      dispatch ''rm'' args cwd w
        = (Inr ([], ''rm: cannot remove '' @ quote p @ '': Is a directory'' @ nl, Some cwd, 1), w0)"
    and "path_exists w0 (path_resolve p cwd) \<Longrightarrow> isdir w0 (path_resolve p cwd) \<Longrightarrow>
      list_ex rm_flag args \<Longrightarrow> rmtree (path_resolve p cwd) w0 = (Inl e, w1) \<Longrightarrow>
      dispatch ''rm'' args cwd w = (Inl e, w1)"
    and "path_exists w0 (path_resolve p cwd) \<Longrightarrow> \<not> isdir w0 (path_resolve p cwd) \<Longrightarrow>
      remove_os (path_resolve p cwd) w0 = (Inl e, w1) \<Longrightarrow>
      dispatch ''rm'' args cwd w = (Inl e, w1)"
proof -
  from assms(1) have ne: "args \<noteq> []" by auto
  have d: "dispatch ''rm'' args cwd w = rm_loop (p # rest) (list_ex rm_flag args) cwd w0"
    using ne assms(1) rm_loop_prefix [OF assms(2), of "p # rest"]
    by (simp add: dispatch_def rm_def Let_def)
  show "\<not> path_exists w0 (path_resolve p cwd) \<Longrightarrow>
      dispatch ''rm'' args cwd w
        = (Inr ([], ''rm: cannot remove '' @ quote p @ '': No such file or directory'' @ nl, Some cwd, 1), w0)"
    by (simp add: d Let_def failure_def)
  show "path_exists w0 (path_resolve p cwd) \<Longrightarrow> isdir w0 (path_resolve p cwd) \<Longrightarrow>
      \<not> list_ex rm_flag args \<Longrightarrow>
      dispatch ''rm'' args cwd w
        = (Inr ([], ''rm: cannot remove '' @ quote p @ '': Is a directory'' @ nl, Some cwd, 1), w0)"
    by (simp add: d Let_def failure_def)
  show "path_exists w0 (path_resolve p cwd) \<Longrightarrow> isdir w0 (path_resolve p cwd) \<Longrightarrow>
      list_ex rm_flag args \<Longrightarrow> rmtree (path_resolve p cwd) w0 = (Inl e, w1) \<Longrightarrow>
      dispatch ''rm'' args cwd w = (Inl e, w1)"
    by (simp add: d Let_def)
  show "path_exists w0 (path_resolve p cwd) \<Longrightarrow> \<not> isdir w0 (path_resolve p cwd) \<Longrightarrow>
      remove_os (path_resolve p cwd) w0 = (Inl e, w1) \<Longrightarrow>
      dispatch ''rm'' args cwd w = (Inl e, w1)"
    by (simp add: d Let_def)
qed

lemma dispatch_rmdir:
  assumes "rmdir_loop pre cwd w = ok [] cwd w0"
  shows "\<not> path_exists w0 (path_resolve a cwd) \<Longrightarrow>
      dispatch ''rmdir'' (pre @ a # rest) cwd w
        = (Inr ([], ''rmdir: failed to remove '' @ quote a @ '': No such file or directory'' @ nl,
                Some cwd, 1), w0)"
    and "path_exists w0 (path_resolve a cwd) \<Longrightarrow> \<not> isdir w0 (path_resolve a cwd) \<Longrightarrow>
      dispatch ''rmdir'' (pre @ a # rest) cwd w
        = (Inr ([], ''rmdir: failed to remove '' @ quote a @ '': Not a directory'' @ nl, Some cwd, 1), w0)"
    and "path_exists w0 (path_resolve a cwd) \<Longrightarrow> isdir w0 (path_resolve a cwd) \<Longrightarrow>
      rmdir_os (path_resolve a cwd) w0 = (Inl e, w1) \<Longrightarrow>
      dispatch ''rmdir'' (pre @ a # rest) cwd w
        = (Inr ([], ''rmdir: failed to remove '' @ quote a @ '': Directory not empty'' @ nl, Some cwd, 1), w1)"
proof -
  have d: "dispatch ''rmdir'' (pre @ a # rest) cwd w = rmdir_loop (a # rest) cwd w0"
    using rmdir_loop_prefix [OF assms, of "a # rest"] by (simp add: dispatch_def rmdir_def)
  show "\<not> path_exists w0 (path_resolve a cwd) \<Longrightarrow>
      dispatch ''rmdir'' (pre @ a # rest) cwd w
        = (Inr ([], ''rmdir: failed to remove '' @ quote a @ '': No such file or directory'' @ nl,
                Some cwd, 1), w0)"
    by (simp add: d Let_def failure_def)
  show "path_exists w0 (path_resolve a cwd) \<Longrightarrow> \<not> isdir w0 (path_resolve a cwd) \<Longrightarrow>
      dispatch ''rmdir'' (pre @ a # rest) cwd w
        = (Inr ([], ''rmdir: failed to remove '' @ quote a @ '': Not a directory'' @ nl, Some cwd, 1), w0)"
    by (simp add: d Let_def failure_def)
  show "path_exists w0 (path_resolve a cwd) \<Longrightarrow> isdir w0 (path_resolve a cwd) \<Longrightarrow>
      rmdir_os (path_resolve a cwd) w0 = (Inl e, w1) \<Longrightarrow>
      dispatch ''rmdir'' (pre @ a # rest) cwd w
        = (Inr ([], ''rmdir: failed to remove '' @ quote a @ '': Directory not empty'' @ nl, Some cwd, 1), w1)"
    using rmdir_os_error [of "path_resolve a cwd" w0 e w1] by (simp add: d Let_def failure_def)
qed

lemma dispatch_touch:
  assumes "touch_loop pre cwd w = ok [] cwd w0"
  shows "dirname (path_resolve a cwd) \<noteq> [] \<Longrightarrow> \<not> path_exists w0 (dirname (path_resolve a cwd)) \<Longrightarrow>
      makedirs (dirname (path_resolve a cwd)) True w0 = (Inl e, w1) \<Longrightarrow>
      dispatch ''touch'' (pre @ a # rest) cwd w = (Inl e, w1)"
    and "(if dirname (path_resolve a cwd) \<noteq> [] \<and> \<not> path_exists w0 (dirname (path_resolve a cwd))
          then makedirs (dirname (path_resolve a cwd)) True w0 else (Inr (), w0)) = (Inr (), w1) \<Longrightarrow>
      write_text True (path_resolve a cwd) [] w1 = (Inl e, w2) \<Longrightarrow>
      dispatch ''touch'' (pre @ a # rest) cwd w = (Inl e, w2)"
proof -
  have d: "dispatch ''touch'' (pre @ a # rest) cwd w = touch_loop (a # rest) cwd w0"
    using touch_loop_prefix [OF assms, of "a # rest"] by (simp add: dispatch_def touch_def)
  show "dirname (path_resolve a cwd) \<noteq> [] \<Longrightarrow> \<not> path_exists w0 (dirname (path_resolve a cwd)) \<Longrightarrow>
      makedirs (dirname (path_resolve a cwd)) True w0 = (Inl e, w1) \<Longrightarrow>
      dispatch ''touch'' (pre @ a # rest) cwd w = (Inl e, w1)"
    by (simp add: d Let_def)
  show "(if dirname (path_resolve a cwd) \<noteq> [] \<and> \<not> path_exists w0 (dirname (path_resolve a cwd))
          then makedirs (dirname (path_resolve a cwd)) True w0 else (Inr (), w0)) = (Inr (), w1) \<Longrightarrow>
      write_text True (path_resolve a cwd) [] w1 = (Inl e, w2) \<Longrightarrow>
      dispatch ''touch'' (pre @ a # rest) cwd w = (Inl e, w2)"
    by (simp add: d Let_def)
qed

lemma dispatch_mv:
  assumes "2 \<le> length args" and "length args = 2 \<or> isdir w (path_resolve (last args) cwd)"
    and "map (\<lambda>a. path_resolve a cwd) (butlast args) = pre @ s # rest"
    and "mv_loop pre (path_resolve (last args) cwd) cwd w = ok [] cwd w0"
  shows "\<not> path_exists w0 s \<Longrightarrow>
      dispatch ''mv'' args cwd w
        = (Inr ([], ''mv: cannot stat '' @ quote s @ '': No such file or directory'' @ nl, Some cwd, 1), w0)"
    and "path_exists w0 s \<Longrightarrow>
      (if isdir w0 (path_resolve (last args) cwd)
       then move s (join (path_resolve (last args) cwd) (basename s)) w0
       else move s (path_resolve (last args) cwd) w0) = (Inl e, w1) \<Longrightarrow>
      dispatch ''mv'' args cwd w = (Inr ([], ''mv error: '' @ exn_str e @ nl, Some cwd, 1), w1)"
proof -
  let ?dest = "path_resolve (last args) cwd"
  from assms(1,2) have g: "\<not> (1 < length (map (\<lambda>a. path_resolve a cwd) (butlast args)) \<and> \<not> isdir w ?dest)"
    by auto
  have m1: "mv args cwd w =
      (case mv_loop (map (\<lambda>a. path_resolve a cwd) (butlast args)) ?dest cwd w of
         (Inl e, w1) \<Rightarrow> failure (''mv error: '' @ exn_str e @ nl) cwd 1 w1
       | (Inr r, w1) \<Rightarrow> (Inr r, w1))"
    using assms(1) g by (auto simp: mv_def Let_def simp del: length_map)
  have m2: "mv_loop (map (\<lambda>a. path_resolve a cwd) (butlast args)) ?dest cwd w
      = mv_loop (s # rest) ?dest cwd w0"
    unfolding assms(3) by (rule mv_loop_prefix [OF assms(4)])
  have d: "dispatch ''mv'' args cwd w =
      (case mv_loop (s # rest) ?dest cwd w0 of
         (Inl e, w1) \<Rightarrow> failure (''mv error: '' @ exn_str e @ nl) cwd 1 w1
       | (Inr r, w1) \<Rightarrow> (Inr r, w1))"
    unfolding m1 [symmetric, unfolded m2] by (simp add: dispatch_def)
  show "\<not> path_exists w0 s \<Longrightarrow>
      dispatch ''mv'' args cwd w
        = (Inr ([], ''mv: cannot stat '' @ quote s @ '': No such file or directory'' @ nl, Some cwd, 1), w0)"
    by (simp add: d failure_def)
  show "path_exists w0 s \<Longrightarrow>
      (if isdir w0 ?dest then move s (join ?dest (basename s)) w0 else move s ?dest w0) = (Inl e, w1) \<Longrightarrow>
      dispatch ''mv'' args cwd w = (Inr ([], ''mv error: '' @ exn_str e @ nl, Some cwd, 1), w1)"
    by (simp add: d failure_def)
qed

lemma dispatch_cp:
  assumes "2 \<le> length (filter (\<lambda>a. a \<noteq> ''-r'') args)"
    and "length (filter (\<lambda>a. a \<noteq> ''-r'') args) = 2
         \<or> isdir w (path_resolve (last (filter (\<lambda>a. a \<noteq> ''-r'') args)) cwd)"
    and "map (\<lambda>a. path_resolve a cwd) (butlast (filter (\<lambda>a. a \<noteq> ''-r'') args)) = pre @ s # rest"
    and "cp_loop pre (path_resolve (last (filter (\<lambda>a. a \<noteq> ''-r'') args)) cwd) (''-r'' \<in> set args) cwd w
           = ok [] cwd w0"
  shows "\<not> path_exists w0 s \<Longrightarrow>
      dispatch ''cp'' args cwd w
        = (Inr ([], ''cp: cannot stat '' @ quote s @ '': No such file or directory'' @ nl, Some cwd, 1), w0)"
    and "path_exists w0 s \<Longrightarrow> isdir w0 s \<Longrightarrow> ''-r'' \<notin> set args \<Longrightarrow>
      dispatch ''cp'' args cwd w
        = (Inr ([], ''cp: -r not specified; omitting directory '' @ quote s @ nl, Some cwd, 1), w0)"
    and "path_exists w0 s \<Longrightarrow> isdir w0 s \<Longrightarrow> ''-r'' \<in> set args \<Longrightarrow>
      copytree s (join (path_resolve (last (filter (\<lambda>a. a \<noteq> ''-r'') args)) cwd) (basename s)) w0
        = (Inl e, w1) \<Longrightarrow>
      dispatch ''cp'' args cwd w = (Inr ([], ''cp error: '' @ exn_str e @ nl, Some cwd, 1), w1)"
    and "path_exists w0 s \<Longrightarrow> \<not> isdir w0 s \<Longrightarrow>
      (if isdir w0 (path_resolve (last (filter (\<lambda>a. a \<noteq> ''-r'') args)) cwd)
       then copy2 s (join (path_resolve (last (filter (\<lambda>a. a \<noteq> ''-r'') args)) cwd) (basename s)) w0
       else copy2 s (path_resolve (last (filter (\<lambda>a. a \<noteq> ''-r'') args)) cwd) w0) = (Inl e, w1) \<Longrightarrow>
      dispatch ''cp'' args cwd w = (Inr ([], ''cp error: '' @ exn_str e @ nl, Some cwd, 1), w1)"
proof -
  let ?files = "filter (\<lambda>a. a \<noteq> ''-r'') args"
  let ?dest = "path_resolve (last ?files) cwd"
  let ?rec = "''-r'' \<in> set args"
  have la: "2 \<le> length args" by (rule le_trans [OF assms(1) length_filter_le])
  from assms(1,2) have g: "\<not> (1 < length (map (\<lambda>a. path_resolve a cwd) (butlast ?files)) \<and> \<not> isdir w ?dest)"
    by auto
  have m1: "cp args cwd w =
      (case cp_loop (map (\<lambda>a. path_resolve a cwd) (butlast ?files)) ?dest ?rec cwd w of
         (Inl e, w1) \<Rightarrow> failure (''cp error: '' @ exn_str e @ nl) cwd 1 w1
       | (Inr r, w1) \<Rightarrow> (Inr r, w1))"
    using la assms(1) g by (auto simp: cp_def Let_def simp del: length_map)
  have m2: "cp_loop (map (\<lambda>a. path_resolve a cwd) (butlast ?files)) ?dest ?rec cwd w
      = cp_loop (s # rest) ?dest ?rec cwd w0"
    unfolding assms(3) by (rule cp_loop_prefix [OF assms(4)])
  have d: "dispatch ''cp'' args cwd w =
      (case cp_loop (s # rest) ?dest ?rec cwd w0 of
         (Inl e, w1) \<Rightarrow> failure (''cp error: '' @ exn_str e @ nl) cwd 1 w1
       | (Inr r, w1) \<Rightarrow> (Inr r, w1))"
    unfolding m1 [symmetric, unfolded m2] by (simp add: dispatch_def)
  show "\<not> path_exists w0 s \<Longrightarrow>
      dispatch ''cp'' args cwd w
        = (Inr ([], ''cp: cannot stat '' @ quote s @ '': No such file or directory'' @ nl, Some cwd, 1), w0)"
    by (simp add: d failure_def)
  show "path_exists w0 s \<Longrightarrow> isdir w0 s \<Longrightarrow> ''-r'' \<notin> set args \<Longrightarrow>
      dispatch ''cp'' args cwd w
        = (Inr ([], ''cp: -r not specified; omitting directory '' @ quote s @ nl, Some cwd, 1), w0)"
    by (simp add: d failure_def)
  show "path_exists w0 s \<Longrightarrow> isdir w0 s \<Longrightarrow> ''-r'' \<in> set args \<Longrightarrow>
      copytree s (join ?dest (basename s)) w0 = (Inl e, w1) \<Longrightarrow>
      dispatch ''cp'' args cwd w = (Inr ([], ''cp error: '' @ exn_str e @ nl, Some cwd, 1), w1)"
    by (simp add: d failure_def)
  show "path_exists w0 s \<Longrightarrow> \<not> isdir w0 s \<Longrightarrow>
      (if isdir w0 ?dest then copy2 s (join ?dest (basename s)) w0 else copy2 s ?dest w0) = (Inl e, w1) \<Longrightarrow>
      dispatch ''cp'' args cwd w = (Inr ([], ''cp error: '' @ exn_str e @ nl, Some cwd, 1), w1)"
    by (simp add: d failure_def)
qed

lemma dispatch_multi:
  "3 \<le> length args \<Longrightarrow> \<not> isdir w (path_resolve (last args) cwd) \<Longrightarrow>
     dispatch ''mv'' args cwd w = (Inr ([], ''mv: target is not a directory'' @ nl, Some cwd, 1), w)"
  "3 \<le> length (filter (\<lambda>a. a \<noteq> ''-r'') args) \<Longrightarrow>
   \<not> isdir w (path_resolve (last (filter (\<lambda>a. a \<noteq> ''-r'') args)) cwd) \<Longrightarrow>
     dispatch ''cp'' args cwd w = (Inr ([], ''cp: target is not a directory'' @ nl, Some cwd, 1), w)"
proof -
  show "3 \<le> length args \<Longrightarrow> \<not> isdir w (path_resolve (last args) cwd) \<Longrightarrow>
     dispatch ''mv'' args cwd w = (Inr ([], ''mv: target is not a directory'' @ nl, Some cwd, 1), w)"
    by (auto simp: dispatch_def mv_def failure_def Let_def)
  assume a: "3 \<le> length (filter (\<lambda>a. a \<noteq> ''-r'') args)"
    and b: "\<not> isdir w (path_resolve (last (filter (\<lambda>a. a \<noteq> ''-r'') args)) cwd)"
  have "3 \<le> length args" by (rule le_trans [OF a length_filter_le])
  then have "2 \<le> length args" by simp
  with a b show "dispatch ''cp'' args cwd w
      = (Inr ([], ''cp: target is not a directory'' @ nl, Some cwd, 1), w)"
    by (auto simp: dispatch_def cp_def failure_def Let_def)
qed

lemma dispatch_echo:
  "''>'' \<notin> set pre \<Longrightarrow>
     dispatch ''echo'' (pre @ [''>'']) cwd w
       = (Inr ([], ''echo: redirection error: list index out of range'' @ nl, Some cwd, 1), w)"
  "''>'' \<notin> set pre \<Longrightarrow> ''>>'' \<notin> set pre \<Longrightarrow>
     dispatch ''echo'' (pre @ [''>>'']) cwd w
       = (Inr ([], ''echo: redirection error: list index out of range'' @ nl, Some cwd, 1), w)"
  "''>'' \<notin> set pre \<Longrightarrow>
   write_text False (path_resolve t cwd) (str_join '' '' pre @ nl) w = (Inl e, w1) \<Longrightarrow>
     dispatch ''echo'' (pre @ ''>'' # t # rest) cwd w
       = (Inr ([], ''echo: redirection error: '' @ exn_str e @ nl, Some cwd, 1), w1)"
  "''>'' \<notin> set pre \<Longrightarrow> ''>>'' \<notin> set pre \<Longrightarrow> ''>'' \<noteq> t \<Longrightarrow> ''>'' \<notin> set rest \<Longrightarrow>
   write_text True (path_resolve t cwd) (str_join '' '' pre @ nl) w = (Inl e, w1) \<Longrightarrow>
     dispatch ''echo'' (pre @ ''>>'' # t # rest) cwd w
       = (Inr ([], ''echo: redirection error: '' @ exn_str e @ nl, Some cwd, 1), w1)"
  by (simp_all add: dispatch_def echo_def index_of_first Let_def nth_append failure_def)

subsection \<open>run never raises\<close>

lemma run_returns:
  "\<exists>r w'. run raw (Some cwd) w = (Inr r, w') \<and> well_formed cwd r"
proof (cases "strip raw = []")
  case True
  then show ?thesis by (auto simp: run_def well_formed_def shlex_split_Nil)
next
  case False
  show ?thesis
  proof (cases "shlex_split (strip raw)")
    case (Inl e)
    with False show ?thesis by (auto simp: run_def well_formed_def)
  next
    case (Inr parts)
    with shlex_split_nonempty [OF False] obtain cmd args where p: "parts = cmd # args"
      by (cases parts) auto
    obtain x w1 where d: "dispatch cmd args cwd w = (x, w1)" by (cases "dispatch cmd args cwd w")
    show ?thesis
    proof (cases x)
      case (Inl e)
      with Inr p d show ?thesis by (auto simp: run_tokens well_formed_def)
    next
      case r: (Inr r)
      obtain out err c code where "r = (out, err, c, code)" by (cases r) auto
      with d r dispatch_shape [of cmd args cwd w out err c code w1]
      have "well_formed cwd r" by simp
      with Inr p d r show ?thesis by (auto simp: run_tokens)
    qed
  qed
qed


lemma run_parse_error:
  "strip raw \<noteq> [] \<and> shlex_split (strip raw) = Inl e \<longrightarrow>
   run raw (Some cwd) w = (Inr ([], ''parse error: '' @ exn_str e, Some cwd, 2), w)"
  by (simp add: run_def)

lemma run_tokens_imp:
  "shlex_split (strip raw) = Inr (cmd # args) \<longrightarrow>
   run raw (Some cwd) w =
     (case dispatch cmd args cwd w of
        (Inl e, w1) \<Rightarrow> (Inr ([], ''Error: '' @ exn_str e @ nl, Some cwd, 1), w1)
      | (Inr r, w1) \<Rightarrow> (Inr r, w1))"
  by (simp add: run_tokens)

text \<open>
  C2: for every raw line and every working directory given, \<open>run\<close> returns a
  four-tuple and raises nothing, and the tuple is well formed: a nonzero exit code comes
  with empty stdout, a message on stderr and the working directory given. Every error
  becomes such a result. A line that does not tokenise gives \<open>parse error: ...\<close> with
  code 2. An exception that leaves the handler becomes \<open>Error: <message>\<close> with code 1.
  Inside the handlers: a missing operand gives the usage message with code 2; a path that
  is missing or of the wrong kind gives its message with code 1 (code 2 for \<open>ls\<close>); the
  exception of \<open>os.makedirs\<close> in \<open>mkdir\<close>, of \<open>os.rmdir\<close> in \<open>rmdir\<close>, of the write in
  \<open>echo\<close>, of \<open>shutil.move\<close> in \<open>mv\<close> and of the copy in \<open>cp\<close> gives the handler's own
  message with code 1; the exceptions the handlers do not catch (\<open>cd\<close> without argument
  and without a home directory, \<open>rm\<close>, \<open>touch\<close>, the system queries) leave the handler
  and so become \<open>Error: <message>\<close>. In a loop over the arguments this holds for the first
  argument that fails, \<open>pre\<close> being the arguments before it.
\<close>

theorem run_total:
  "(\<exists>r w'. run raw (Some cwd) w = (Inr r, w') \<and> well_formed cwd r)
   \<and> (strip raw \<noteq> [] \<and> shlex_split (strip raw) = Inl e \<longrightarrow>
      run raw (Some cwd) w = (Inr ([], ''parse error: '' @ exn_str e, Some cwd, 2), w))
   \<and> (shlex_split (strip raw) = Inr (cmd # args) \<longrightarrow>
      run raw (Some cwd) w =
        (case dispatch cmd args cwd w of
           (Inl e, w1) \<Rightarrow> (Inr ([], ''Error: '' @ exn_str e @ nl, Some cwd, 1), w1)
         | (Inr r, w1) \<Rightarrow> (Inr r, w1)))
   \<and> dispatch ''mkdir'' [] cwd w = (Inr ([], ''mkdir: missing operand'' @ nl, Some cwd, 2), w)
   \<and> dispatch ''rm'' [] cwd w = (Inr ([], ''rm: missing operand'' @ nl, Some cwd, 2), w)
   \<and> dispatch ''rmdir'' [] cwd w = (Inr ([], ''rmdir: missing operand'' @ nl, Some cwd, 2), w)
   \<and> dispatch ''cat'' [] cwd w = (Inr ([], ''cat: missing file operand'' @ nl, Some cwd, 2), w)
   \<and> dispatch ''head'' [] cwd w = (Inr ([], ''head: missing file operand'' @ nl, Some cwd, 2), w)
   \<and> dispatch ''tail'' [] cwd w = (Inr ([], ''tail: missing file operand'' @ nl, Some cwd, 2), w)
   \<and> dispatch ''touch'' [] cwd w = (Inr ([], ''touch: missing file operand'' @ nl, Some cwd, 2), w)
   \<and> (args \<noteq> [] \<and> filter (\<lambda>a. \<not> rm_flag a) args = [] \<longrightarrow>
      dispatch ''rm'' args cwd w = (Inr ([], ''rm: missing path'' @ nl, Some cwd, 2), w))
   \<and> (length args < 2 \<longrightarrow>
      dispatch ''mv'' args cwd w = (Inr ([], ''mv: missing file operands'' @ nl, Some cwd, 2), w))
   \<and> (length args < 2 \<longrightarrow>
      dispatch ''cp'' args cwd w = (Inr ([], ''cp: missing file operands'' @ nl, Some cwd, 2), w))
   \<and> (2 \<le> length args \<and> length (filter (\<lambda>a. a \<noteq> ''-r'') args) < 2 \<longrightarrow>
      dispatch ''cp'' args cwd w = (Inr ([], ''cp: missing destination file operand after source'' @ nl, Some cwd, 2), w))
   \<and> (\<not> (path_exists w (expanduser_tilde w) \<and> isdir w (expanduser_tilde w)) \<longrightarrow>
      dispatch ''cd'' [] cwd w = (Inl (Exn IndexError ''list index out of range''), w))
   \<and> (\<not> path_exists w (path_resolve a cwd) \<longrightarrow>
      dispatch ''cd'' (a # rest) cwd w = (Inr ([], ''cd: '' @ a @ '': No such file or directory'' @ nl, Some cwd, 1), w))
   \<and> (path_exists w (path_resolve a cwd) \<and> \<not> isdir w (path_resolve a cwd) \<longrightarrow>
      dispatch ''cd'' (a # rest) cwd w = (Inr ([], ''cd: '' @ a @ '': Not a directory'' @ nl, Some cwd, 1), w))
   \<and> (\<not> path_exists w (ls_target args cwd) \<longrightarrow>
      dispatch ''ls'' args cwd w =
        (Inr ([], ''ls: cannot access '' @ quote (ls_target args cwd) @ '': No such file or directory'' @ nl, Some cwd, 2), w))
   \<and> (\<not> path_exists w (path_resolve a cwd) \<longrightarrow>
      dispatch ''head'' (a # rest) cwd w = (Inr ([], ''head: '' @ a @ '': No such file or directory'' @ nl, Some cwd, 1), w))
   \<and> (path_exists w (path_resolve a cwd) \<and> isdir w (path_resolve a cwd) \<longrightarrow>
      dispatch ''head'' (a # rest) cwd w = (Inr ([], ''head: '' @ a @ '': Is a directory'' @ nl, Some cwd, 1), w))
   \<and> (\<not> path_exists w (path_resolve a cwd) \<longrightarrow>
      dispatch ''tail'' (a # rest) cwd w = (Inr ([], ''tail: '' @ a @ '': No such file or directory'' @ nl, Some cwd, 1), w))
   \<and> (path_exists w (path_resolve a cwd) \<and> isdir w (path_resolve a cwd) \<longrightarrow>
      dispatch ''tail'' (a # rest) cwd w = (Inr ([], ''tail: '' @ a @ '': Is a directory'' @ nl, Some cwd, 1), w))
   \<and> ((\<forall>b\<in>set pre. path_exists w (path_resolve b cwd) \<and> \<not> isdir w (path_resolve b cwd)) \<and> \<not> path_exists w (path_resolve a cwd) \<longrightarrow>
      dispatch ''cat'' (pre @ a # rest) cwd w = (Inr ([], ''cat: '' @ a @ '': No such file or directory'' @ nl, Some cwd, 1), w))
   \<and> ((\<forall>b\<in>set pre. path_exists w (path_resolve b cwd) \<and> \<not> isdir w (path_resolve b cwd)) \<and> path_exists w (path_resolve a cwd) \<and> isdir w (path_resolve a cwd) \<longrightarrow>
      dispatch ''cat'' (pre @ a # rest) cwd w = (Inr ([], ''cat: '' @ a @ '': Is a directory'' @ nl, Some cwd, 1), w))
   \<and> (cpu_percent w = Inl e \<longrightarrow>
      dispatch ''cpu'' args cwd w = (Inl e, w))
   \<and> (virtual_memory w = Inl e \<longrightarrow>
      dispatch ''mem'' args cwd w = (Inl e, w))
   \<and> (process_lines w = Inl e \<longrightarrow>
      dispatch ''ps'' args cwd w = (Inl e, w))
   \<and> (uptime_delta w = Inl e \<longrightarrow>
      dispatch ''uptime'' args cwd w = (Inl e, w))
   \<and> (mkdir_loop pre cwd w = ok [] cwd w0 \<and> makedirs (path_resolve a cwd) False w0 = (Inl e, w1) \<longrightarrow>
      dispatch ''mkdir'' (pre @ a # rest) cwd w =
        (if exn_class_of e = FileExistsError
         then (Inr ([], ''mkdir: cannot create directory '' @ quote a @ '': File exists'' @ nl, Some cwd, 1), w1)
         else (Inl e, w1)))
   \<and> (filter (\<lambda>a. \<not> rm_flag a) args = pre @ p # rest \<and> rm_loop pre (list_ex rm_flag args) cwd w = ok [] cwd w0 \<and> \<not> path_exists w0 (path_resolve p cwd) \<longrightarrow>
      dispatch ''rm'' args cwd w =
        (Inr ([], ''rm: cannot remove '' @ quote p @ '': No such file or directory'' @ nl, Some cwd, 1), w0))
   \<and> (filter (\<lambda>a. \<not> rm_flag a) args = pre @ p # rest \<and> rm_loop pre (list_ex rm_flag args) cwd w = ok [] cwd w0 \<and> path_exists w0 (path_resolve p cwd) \<and> isdir w0 (path_resolve p cwd) \<and> \<not> list_ex rm_flag args \<longrightarrow>
      dispatch ''rm'' args cwd w =
        (Inr ([], ''rm: cannot remove '' @ quote p @ '': Is a directory'' @ nl, Some cwd, 1), w0))
   \<and> (filter (\<lambda>a. \<not> rm_flag a) args = pre @ p # rest \<and> rm_loop pre (list_ex rm_flag args) cwd w = ok [] cwd w0 \<and> path_exists w0 (path_resolve p cwd) \<and> isdir w0 (path_resolve p cwd) \<and> list_ex rm_flag args \<and> rmtree (path_resolve p cwd) w0 = (Inl e, w1) \<longrightarrow>
      dispatch ''rm'' args cwd w = (Inl e, w1))
   \<and> (filter (\<lambda>a. \<not> rm_flag a) args = pre @ p # rest \<and> rm_loop pre (list_ex rm_flag args) cwd w = ok [] cwd w0 \<and> path_exists w0 (path_resolve p cwd) \<and> \<not> isdir w0 (path_resolve p cwd) \<and> remove_os (path_resolve p cwd) w0 = (Inl e, w1) \<longrightarrow>
      dispatch ''rm'' args cwd w = (Inl e, w1))
   \<and> (rmdir_loop pre cwd w = ok [] cwd w0 \<and> \<not> path_exists w0 (path_resolve a cwd) \<longrightarrow>
      dispatch ''rmdir'' (pre @ a # rest) cwd w =
        (Inr ([], ''rmdir: failed to remove '' @ quote a @ '': No such file or directory'' @ nl, Some cwd, 1), w0))
   \<and> (rmdir_loop pre cwd w = ok [] cwd w0 \<and> path_exists w0 (path_resolve a cwd) \<and> \<not> isdir w0 (path_resolve a cwd) \<longrightarrow>
      dispatch ''rmdir'' (pre @ a # rest) cwd w =
        (Inr ([], ''rmdir: failed to remove '' @ quote a @ '': Not a directory'' @ nl, Some cwd, 1), w0))
   \<and> (rmdir_loop pre cwd w = ok [] cwd w0 \<and> path_exists w0 (path_resolve a cwd) \<and> isdir w0 (path_resolve a cwd) \<and> rmdir_os (path_resolve a cwd) w0 = (Inl e, w1) \<longrightarrow>
      dispatch ''rmdir'' (pre @ a # rest) cwd w =
        (Inr ([], ''rmdir: failed to remove '' @ quote a @ '': Directory not empty'' @ nl, Some cwd, 1), w1))
   \<and> (touch_loop pre cwd w = ok [] cwd w0 \<and> dirname (path_resolve a cwd) \<noteq> [] \<and> \<not> path_exists w0 (dirname (path_resolve a cwd)) \<and> makedirs (dirname (path_resolve a cwd)) True w0 = (Inl e, w1) \<longrightarrow>
      dispatch ''touch'' (pre @ a # rest) cwd w = (Inl e, w1))
   \<and> (touch_loop pre cwd w = ok [] cwd w0 \<and> (if dirname (path_resolve a cwd) \<noteq> [] \<and> \<not> path_exists w0 (dirname (path_resolve a cwd))
        then makedirs (dirname (path_resolve a cwd)) True w0 else (Inr (), w0)) = (Inr (), w1) \<and> write_text True (path_resolve a cwd) [] w1 = (Inl e, w2) \<longrightarrow>
      dispatch ''touch'' (pre @ a # rest) cwd w = (Inl e, w2))
   \<and> (3 \<le> length args \<and> \<not> isdir w (path_resolve (last args) cwd) \<longrightarrow>
      dispatch ''mv'' args cwd w = (Inr ([], ''mv: target is not a directory'' @ nl, Some cwd, 1), w))
   \<and> (2 \<le> length args \<and> (length args = 2 \<or> isdir w (path_resolve (last args) cwd)) \<and> map (\<lambda>a. path_resolve a cwd) (butlast args) = pre @ s # rest \<and> mv_loop pre (path_resolve (last args) cwd) cwd w = ok [] cwd w0 \<and> \<not> path_exists w0 s \<longrightarrow>
      dispatch ''mv'' args cwd w =
        (Inr ([], ''mv: cannot stat '' @ quote s @ '': No such file or directory'' @ nl, Some cwd, 1), w0))
   \<and> (2 \<le> length args \<and> (length args = 2 \<or> isdir w (path_resolve (last args) cwd)) \<and> map (\<lambda>a. path_resolve a cwd) (butlast args) = pre @ s # rest \<and> mv_loop pre (path_resolve (last args) cwd) cwd w = ok [] cwd w0 \<and> path_exists w0 s \<and> (if isdir w0 (path_resolve (last args) cwd)
        then move s (join (path_resolve (last args) cwd) (basename s)) w0
        else move s (path_resolve (last args) cwd) w0) = (Inl e, w1) \<longrightarrow>
      dispatch ''mv'' args cwd w = (Inr ([], ''mv error: '' @ exn_str e @ nl, Some cwd, 1), w1))
   \<and> (3 \<le> length (filter (\<lambda>a. a \<noteq> ''-r'') args) \<and> \<not> isdir w (path_resolve (last (filter (\<lambda>a. a \<noteq> ''-r'') args)) cwd) \<longrightarrow>
      dispatch ''cp'' args cwd w = (Inr ([], ''cp: target is not a directory'' @ nl, Some cwd, 1), w))
   \<and> (2 \<le> length (filter (\<lambda>a. a \<noteq> ''-r'') args) \<and> (length (filter (\<lambda>a. a \<noteq> ''-r'') args) = 2
        \<or> isdir w (path_resolve (last (filter (\<lambda>a. a \<noteq> ''-r'') args)) cwd)) \<and> map (\<lambda>a. path_resolve a cwd) (butlast (filter (\<lambda>a. a \<noteq> ''-r'') args)) = pre @ s # rest \<and> cp_loop pre (path_resolve (last (filter (\<lambda>a. a \<noteq> ''-r'') args)) cwd) (''-r'' \<in> set args) cwd w
        = ok [] cwd w0 \<and> \<not> path_exists w0 s \<longrightarrow>
      dispatch ''cp'' args cwd w =
        (Inr ([], ''cp: cannot stat '' @ quote s @ '': No such file or directory'' @ nl, Some cwd, 1), w0))
   \<and> (2 \<le> length (filter (\<lambda>a. a \<noteq> ''-r'') args) \<and> (length (filter (\<lambda>a. a \<noteq> ''-r'') args) = 2
        \<or> isdir w (path_resolve (last (filter (\<lambda>a. a \<noteq> ''-r'') args)) cwd)) \<and> map (\<lambda>a. path_resolve a cwd) (butlast (filter (\<lambda>a. a \<noteq> ''-r'') args)) = pre @ s # rest \<and> cp_loop pre (path_resolve (last (filter (\<lambda>a. a \<noteq> ''-r'') args)) cwd) (''-r'' \<in> set args) cwd w
        = ok [] cwd w0 \<and> path_exists w0 s \<and> isdir w0 s \<and> ''-r'' \<notin> set args \<longrightarrow>
      dispatch ''cp'' args cwd w =
        (Inr ([], ''cp: -r not specified; omitting directory '' @ quote s @ nl, Some cwd, 1), w0))
   \<and> (2 \<le> length (filter (\<lambda>a. a \<noteq> ''-r'') args) \<and> (length (filter (\<lambda>a. a \<noteq> ''-r'') args) = 2
        \<or> isdir w (path_resolve (last (filter (\<lambda>a. a \<noteq> ''-r'') args)) cwd)) \<and> map (\<lambda>a. path_resolve a cwd) (butlast (filter (\<lambda>a. a \<noteq> ''-r'') args)) = pre @ s # rest \<and> cp_loop pre (path_resolve (last (filter (\<lambda>a. a \<noteq> ''-r'') args)) cwd) (''-r'' \<in> set args) cwd w
        = ok [] cwd w0 \<and> path_exists w0 s \<and> isdir w0 s \<and> ''-r'' \<in> set args \<and> copytree s (join (path_resolve (last (filter (\<lambda>a. a \<noteq> ''-r'') args)) cwd) (basename s)) w0
        = (Inl e, w1) \<longrightarrow>
      dispatch ''cp'' args cwd w = (Inr ([], ''cp error: '' @ exn_str e @ nl, Some cwd, 1), w1))
   \<and> (2 \<le> length (filter (\<lambda>a. a \<noteq> ''-r'') args) \<and> (length (filter (\<lambda>a. a \<noteq> ''-r'') args) = 2
        \<or> isdir w (path_resolve (last (filter (\<lambda>a. a \<noteq> ''-r'') args)) cwd)) \<and> map (\<lambda>a. path_resolve a cwd) (butlast (filter (\<lambda>a. a \<noteq> ''-r'') args)) = pre @ s # rest \<and> cp_loop pre (path_resolve (last (filter (\<lambda>a. a \<noteq> ''-r'') args)) cwd) (''-r'' \<in> set args) cwd w
        = ok [] cwd w0 \<and> path_exists w0 s \<and> \<not> isdir w0 s \<and> (if isdir w0 (path_resolve (last (filter (\<lambda>a. a \<noteq> ''-r'') args)) cwd)
        then copy2 s (join (path_resolve (last (filter (\<lambda>a. a \<noteq> ''-r'') args)) cwd) (basename s)) w0
        else copy2 s (path_resolve (last (filter (\<lambda>a. a \<noteq> ''-r'') args)) cwd) w0) = (Inl e, w1) \<longrightarrow>
      dispatch ''cp'' args cwd w = (Inr ([], ''cp error: '' @ exn_str e @ nl, Some cwd, 1), w1))
   \<and> (''>'' \<notin> set pre \<longrightarrow>
      dispatch ''echo'' (pre @ [''>'']) cwd w =
        (Inr ([], ''echo: redirection error: list index out of range'' @ nl, Some cwd, 1), w))
   \<and> (''>'' \<notin> set pre \<and> ''>>'' \<notin> set pre \<longrightarrow>
      dispatch ''echo'' (pre @ [''>>'']) cwd w =
        (Inr ([], ''echo: redirection error: list index out of range'' @ nl, Some cwd, 1), w))
   \<and> (''>'' \<notin> set pre \<and> write_text False (path_resolve t cwd) (str_join '' '' pre @ nl) w = (Inl e, w1) \<longrightarrow>
      dispatch ''echo'' (pre @ ''>'' # t # rest) cwd w =
        (Inr ([], ''echo: redirection error: '' @ exn_str e @ nl, Some cwd, 1), w1))
   \<and> (''>'' \<notin> set pre \<and> ''>>'' \<notin> set pre \<and> ''>'' \<noteq> t \<and> ''>'' \<notin> set rest \<and> write_text True (path_resolve t cwd) (str_join '' '' pre @ nl) w = (Inl e, w1) \<longrightarrow>
      dispatch ''echo'' (pre @ ''>>'' # t # rest) cwd w =
        (Inr ([], ''echo: redirection error: '' @ exn_str e @ nl, Some cwd, 1), w1))"
  by (intro conjI impI; (elim conjE)?;
      (rule run_returns run_parse_error [rule_format] run_tokens_imp [rule_format]
            dispatch_usage dispatch_usage2 dispatch_cd dispatch_ls dispatch_head_tail
            dispatch_cat dispatch_env dispatch_mkdir dispatch_rm dispatch_rmdir dispatch_touch
            dispatch_multi dispatch_mv dispatch_cp dispatch_echo; (assumption | simp)))

theorem run_total_witness:
  "shlex_split (strip ''mv a a/b'') = Inr (''mv'' # [''a'', ''a/b''])
   \<and> length [''a'', ''a/b''] = 2
   \<and> map (\<lambda>a. path_resolve a ''/w'') (butlast [''a'', ''a/b'']) = [] @ ''/w/a'' # []
   \<and> path_exists example_world ''/w/a''
   \<and> move ''/w/a'' (path_resolve (last [''a'', ''a/b'']) ''/w'') example_world
       = (Inl (Exn ShutilError (''Cannot move a directory '' @ quote ''/w/a''
                                 @ '' into itself '' @ quote ''/w/a/b'' @ ''.'')), example_world)
   \<and> run ''mv a a/b'' (Some ''/w'') example_world
       = (Inr ([], ''mv error: '' @ ''Cannot move a directory '' @ quote ''/w/a''
                     @ '' into itself '' @ quote ''/w/a/b'' @ ''.'' @ nl, Some ''/w'', 1),
          example_world)
   \<and> shlex_split (strip ''cd'') = Inr (''cd'' # [])
   \<and> \<not> path_exists homeless_world (expanduser_tilde homeless_world)
   \<and> run ''cd'' (Some ''/w'') homeless_world
       = (Inr ([], ''Error: '' @ ''list index out of range'' @ nl, Some ''/w'', 1), homeless_world)
   \<and> shlex_split (strip ''mkdir a'') = Inr (''mkdir'' # [] @ ''a'' # [])
   \<and> makedirs (path_resolve ''a'' ''/w'') False example_world
       = (Inl (os_error FileExistsError ''/w/a''), example_world)
   \<and> run ''mkdir a'' (Some ''/w'') example_world
       = (Inr ([], ''mkdir: cannot create directory '' @ quote ''a'' @ '': File exists'' @ nl,
               Some ''/w'', 1), example_world)
   \<and> shlex_split (strip ''cat f nope'') = Inr (''cat'' # [''f''] @ ''nope'' # [])
   \<and> path_exists example_world (path_resolve ''f'' ''/w'')
   \<and> \<not> isdir example_world (path_resolve ''f'' ''/w'')
   \<and> \<not> path_exists example_world (path_resolve ''nope'' ''/w'')
   \<and> run ''cat f nope'' (Some ''/w'') example_world
       = (Inr ([], ''cat: '' @ ''nope'' @ '': No such file or directory'' @ nl, Some ''/w'', 1),
          example_world)"
proof -
  let ?e = "Exn ShutilError (''Cannot move a directory '' @ quote ''/w/a''
                                 @ '' into itself '' @ quote ''/w/a/b'' @ ''.'')"
  have m0: "shlex_split (strip ''mv a a/b'') = Inr (''mv'' # [''a'', ''a/b''])" by code_simp
  have m1: "2 \<le> length [''a'', ''a/b'']" and m2: "length [''a'', ''a/b''] = 2" by simp_all
  have m2d: "length [''a'', ''a/b''] = 2
      \<or> isdir example_world (path_resolve (last [''a'', ''a/b'']) ''/w'')" by simp
  have m3: "map (\<lambda>a. path_resolve a ''/w'') (butlast [''a'', ''a/b'']) = [] @ ''/w/a'' # []"
    by code_simp
  have m4: "mv_loop [] (path_resolve (last [''a'', ''a/b'']) ''/w'') ''/w'' example_world
      = ok [] ''/w'' example_world" by simp
  have m5: "path_exists example_world ''/w/a''" by code_simp
  have p1: "path_resolve (last [''a'', ''a/b'']) ''/w'' = ''/w/a/b''" by code_simp
  have p2: "\<not> isdir example_world ''/w/a/b''" and p3: "isdir example_world ''/w/a''"
    and p4: "destinsrc example_world ''/w/a'' ''/w/a/b''" by code_simp+
  have p5: "rename_os ''/w/a'' ''/w/a/b'' example_world
      = (Inl (Exn OSError (''[Errno 22] Invalid argument: '' @ quote ''/w/a'')), example_world)"
    by code_simp
  have m6': "move ''/w/a'' ''/w/a/b'' example_world = (Inl ?e, example_world)"
    by (simp add: move_def Let_def p2 p3 p4 p5)
  have m6: "move ''/w/a'' (path_resolve (last [''a'', ''a/b'']) ''/w'') example_world
      = (Inl ?e, example_world)" unfolding p1 by (rule m6')
  have m7: "\<not> isdir example_world (path_resolve (last [''a'', ''a/b'']) ''/w'')"
    unfolding p1 by (rule p2)
  have m8: "(if isdir example_world (path_resolve (last [''a'', ''a/b'']) ''/w'')
        then move ''/w/a'' (join (path_resolve (last [''a'', ''a/b'']) ''/w'') (basename ''/w/a'')) example_world
        else move ''/w/a'' (path_resolve (last [''a'', ''a/b'']) ''/w'') example_world)
      = (Inl ?e, example_world)" unfolding if_not_P [OF m7] by (rule m6)
  note t1 = run_total [where raw = "''mv a a/b''" and cwd = "''/w''" and w = example_world
      and cmd = "''mv''" and args = "[''a'', ''a/b'']" and pre = "[]" and s = "''/w/a''"
      and rest = "[]" and ?w0.0 = example_world and e = ?e and ?w1.0 = example_world]
  have d1: "dispatch ''mv'' [''a'', ''a/b''] ''/w'' example_world
      = (Inr ([], ''mv error: '' @ exn_str ?e @ nl, Some ''/w'', 1), example_world)"
    by (rule t1 [THEN conjunct2, THEN conjunct2, THEN conjunct2, THEN conjunct2, THEN conjunct2, THEN conjunct2, THEN conjunct2, THEN conjunct2, THEN conjunct2, THEN conjunct2, THEN conjunct2, THEN conjunct2, THEN conjunct2, THEN conjunct2, THEN conjunct2, THEN conjunct2, THEN conjunct2, THEN conjunct2, THEN conjunct2, THEN conjunct2, THEN conjunct2, THEN conjunct2, THEN conjunct2, THEN conjunct2, THEN conjunct2, THEN conjunct2, THEN conjunct2, THEN conjunct2, THEN conjunct2, THEN conjunct2, THEN conjunct2, THEN conjunct2, THEN conjunct2, THEN conjunct2, THEN conjunct2, THEN conjunct2, THEN conjunct2, THEN conjunct2, THEN conjunct2, THEN conjunct2, THEN conjunct1, rule_format]) (intro conjI, rule m1, rule m2d, rule m3, rule m4, rule m5, rule m8)
  have "run ''mv a a/b'' (Some ''/w'') example_world =
        (case dispatch ''mv'' [''a'', ''a/b''] ''/w'' example_world of
           (Inl e, w1) \<Rightarrow> (Inr ([], ''Error: '' @ exn_str e @ nl, Some ''/w'', 1), w1)
         | (Inr r, w1) \<Rightarrow> (Inr r, w1))"
    by (rule t1 [THEN conjunct2, THEN conjunct2, THEN conjunct1, rule_format]) (rule m0)
  then have r1: "run ''mv a a/b'' (Some ''/w'') example_world
       = (Inr ([], ''mv error: '' @ ''Cannot move a directory '' @ quote ''/w/a''
                     @ '' into itself '' @ quote ''/w/a/b'' @ ''.'' @ nl, Some ''/w'', 1),
          example_world)"
    by (simp add: d1)
  have c0: "shlex_split (strip ''cd'') = Inr (''cd'' # [])" by code_simp
  have c1: "\<not> path_exists homeless_world (expanduser_tilde homeless_world)" by code_simp
  then have c2: "\<not> (path_exists homeless_world (expanduser_tilde homeless_world)
      \<and> isdir homeless_world (expanduser_tilde homeless_world))" by simp
  note t2 = run_total [where raw = "''cd''" and cwd = "''/w''" and w = homeless_world
      and cmd = "''cd''" and args = "[]"]
  have d2: "dispatch ''cd'' [] ''/w'' homeless_world
      = (Inl (Exn IndexError ''list index out of range''), homeless_world)"
    by (rule t2 [THEN conjunct2, THEN conjunct2, THEN conjunct2, THEN conjunct2, THEN conjunct2, THEN conjunct2, THEN conjunct2, THEN conjunct2, THEN conjunct2, THEN conjunct2, THEN conjunct2, THEN conjunct2, THEN conjunct2, THEN conjunct2, THEN conjunct1, rule_format]) (rule c2)
  have "run ''cd'' (Some ''/w'') homeless_world =
        (case dispatch ''cd'' [] ''/w'' homeless_world of
           (Inl e, w1) \<Rightarrow> (Inr ([], ''Error: '' @ exn_str e @ nl, Some ''/w'', 1), w1)
         | (Inr r, w1) \<Rightarrow> (Inr r, w1))"
    by (rule t2 [THEN conjunct2, THEN conjunct2, THEN conjunct1, rule_format]) (rule c0)
  then have r2: "run ''cd'' (Some ''/w'') homeless_world
       = (Inr ([], ''Error: '' @ ''list index out of range'' @ nl, Some ''/w'', 1), homeless_world)"
    by (simp add: d2)
  have k0: "shlex_split (strip ''mkdir a'') = Inr (''mkdir'' # [] @ ''a'' # [])" by code_simp
  have k1: "mkdir_loop [] ''/w'' example_world = ok [] ''/w'' example_world" by simp
  have k2: "makedirs (path_resolve ''a'' ''/w'') False example_world
       = (Inl (os_error FileExistsError ''/w/a''), example_world)" by code_simp
  note t3 = run_total [where raw = "''mkdir a''" and cwd = "''/w''" and w = example_world
      and cmd = "''mkdir''" and args = "[] @ ''a'' # []" and pre = "[]" and a = "''a''"
      and rest = "[]" and ?w0.0 = example_world and e = "os_error FileExistsError ''/w/a''"
      and ?w1.0 = example_world]
  have "dispatch ''mkdir'' ([] @ ''a'' # []) ''/w'' example_world =
        (if exn_class_of (os_error FileExistsError ''/w/a'') = FileExistsError
         then (Inr ([], ''mkdir: cannot create directory '' @ quote ''a'' @ '': File exists'' @ nl,
                    Some ''/w'', 1), example_world)
         else (Inl (os_error FileExistsError ''/w/a''), example_world))"
    by (rule t3 [THEN conjunct2, THEN conjunct2, THEN conjunct2, THEN conjunct2, THEN conjunct2, THEN conjunct2, THEN conjunct2, THEN conjunct2, THEN conjunct2, THEN conjunct2, THEN conjunct2, THEN conjunct2, THEN conjunct2, THEN conjunct2, THEN conjunct2, THEN conjunct2, THEN conjunct2, THEN conjunct2, THEN conjunct2, THEN conjunct2, THEN conjunct2, THEN conjunct2, THEN conjunct2, THEN conjunct2, THEN conjunct2, THEN conjunct2, THEN conjunct2, THEN conjunct2, THEN conjunct1, rule_format]) (intro conjI, rule k1, rule k2)
  then have d3: "dispatch ''mkdir'' ([] @ ''a'' # []) ''/w'' example_world =
        (Inr ([], ''mkdir: cannot create directory '' @ quote ''a'' @ '': File exists'' @ nl,
                    Some ''/w'', 1), example_world)"
    by (simp add: os_error_def)
  have "run ''mkdir a'' (Some ''/w'') example_world =
        (case dispatch ''mkdir'' ([] @ ''a'' # []) ''/w'' example_world of
           (Inl e, w1) \<Rightarrow> (Inr ([], ''Error: '' @ exn_str e @ nl, Some ''/w'', 1), w1)
         | (Inr r, w1) \<Rightarrow> (Inr r, w1))"
    by (rule t3 [THEN conjunct2, THEN conjunct2, THEN conjunct1, rule_format]) (rule k0)
  then have r3: "run ''mkdir a'' (Some ''/w'') example_world
       = (Inr ([], ''mkdir: cannot create directory '' @ quote ''a'' @ '': File exists'' @ nl,
               Some ''/w'', 1), example_world)"
    by (simp only: d3 prod.case sum.case)
  have g0: "shlex_split (strip ''cat f nope'') = Inr (''cat'' # [''f''] @ ''nope'' # [])" by code_simp
  have g1: "path_exists example_world (path_resolve ''f'' ''/w'')"
    and g2: "\<not> isdir example_world (path_resolve ''f'' ''/w'')"
    and g3: "\<not> path_exists example_world (path_resolve ''nope'' ''/w'')" by code_simp+
  from g1 g2 have g4: "\<forall>b\<in>set [''f'']. path_exists example_world (path_resolve b ''/w'')
      \<and> \<not> isdir example_world (path_resolve b ''/w'')" by simp
  note t4 = run_total [where raw = "''cat f nope''" and cwd = "''/w''" and w = example_world
      and cmd = "''cat''" and args = "[''f''] @ ''nope'' # []" and pre = "[''f'']" and a = "''nope''"
      and rest = "[]"]
  have d4: "dispatch ''cat'' ([''f''] @ ''nope'' # []) ''/w'' example_world
      = (Inr ([], ''cat: '' @ ''nope'' @ '': No such file or directory'' @ nl, Some ''/w'', 1),
          example_world)"
    by (rule t4 [THEN conjunct2, THEN conjunct2, THEN conjunct2, THEN conjunct2, THEN conjunct2, THEN conjunct2, THEN conjunct2, THEN conjunct2, THEN conjunct2, THEN conjunct2, THEN conjunct2, THEN conjunct2, THEN conjunct2, THEN conjunct2, THEN conjunct2, THEN conjunct2, THEN conjunct2, THEN conjunct2, THEN conjunct2, THEN conjunct2, THEN conjunct2, THEN conjunct2, THEN conjunct1, rule_format]) (intro conjI, rule g4, rule g3)
  have "run ''cat f nope'' (Some ''/w'') example_world =
        (case dispatch ''cat'' ([''f''] @ ''nope'' # []) ''/w'' example_world of
           (Inl e, w1) \<Rightarrow> (Inr ([], ''Error: '' @ exn_str e @ nl, Some ''/w'', 1), w1)
         | (Inr r, w1) \<Rightarrow> (Inr r, w1))"
    by (rule t4 [THEN conjunct2, THEN conjunct2, THEN conjunct1, rule_format]) (rule g0)
  then have r4: "run ''cat f nope'' (Some ''/w'') example_world
       = (Inr ([], ''cat: '' @ ''nope'' @ '': No such file or directory'' @ nl, Some ''/w'', 1),
          example_world)"
    by (simp only: d4 prod.case sum.case)
  show ?thesis
    by (intro conjI) (rule m0 m2 m3 m5 m6 r1 c0 c1 r2 k0 k2 r3 g0 g1 g2 g3 r4)+
qed

section \<open>Properties of the paths\<close>

subsection \<open>normpath of an absolute path\<close>

lemma split_from_no_sep:
  "c \<notin> set cur \<Longrightarrow> \<forall>x\<in>set (split_from c cur s). c \<notin> set x"
proof (induction s arbitrary: cur)
  case Nil
  then show ?case by simp
next
  case (Cons a s)
  show ?case
  proof (cases "a = c")
    case True
    have "\<forall>x\<in>set (split_from c [] s). c \<notin> set x" by (rule Cons.IH) simp
    with True Cons.prems show ?thesis by simp
  next
    case False
    with Cons.prems have "c \<notin> set (cur @ [a])" by simp
    from Cons.IH [OF this] False show ?thesis by simp
  qed
qed

lemma str_split_no_sep: "x \<in> set (str_split c s) \<Longrightarrow> c \<notin> set x"
  using split_from_no_sep [of c "[]" s] by (simp add: str_split_def)

lemma split_from_append:
  "c \<notin> set x \<Longrightarrow> split_from c cur (x @ rest) = split_from c (cur @ x) rest"
  by (induction x arbitrary: cur) auto

lemma split_from_join:
  "\<forall>n\<in>set (n0 # ns). c \<notin> set n \<Longrightarrow>
   split_from c cur (str_join [c] (n0 # ns)) = (cur @ n0) # ns"
proof (induction ns arbitrary: n0 cur)
  case Nil
  then show ?case using split_from_append [of c n0 cur "[]"] by simp
next
  case (Cons n1 ns)
  from Cons.prems have a: "c \<notin> set n0" and b: "\<forall>n\<in>set (n1 # ns). c \<notin> set n" by simp_all
  have "split_from c cur (n0 @ c # str_join [c] (n1 # ns))
        = split_from c (cur @ n0) (c # str_join [c] (n1 # ns))"
    by (rule split_from_append [OF a])
  also have "\<dots> = (cur @ n0) # split_from c [] (str_join [c] (n1 # ns))" by simp
  also have "\<dots> = (cur @ n0) # n1 # ns" using Cons.IH [OF b, of "[]"] by simp
  finally show ?case by simp
qed

lemma str_split_join:
  "ns \<noteq> [] \<Longrightarrow> \<forall>n\<in>set ns. valid_name n \<Longrightarrow> str_split CHR ''/'' (str_join ''/'' ns) = ns"
proof -
  assume "ns \<noteq> []" and v: "\<forall>n\<in>set ns. valid_name n"
  then obtain n0 ms where ns: "ns = n0 # ms" by (cases ns) auto
  from v have "\<forall>n\<in>set (n0 # ms). CHR ''/'' \<notin> set n" by (simp add: ns valid_name_def)
  from split_from_join [OF this, of "[]"] show ?thesis by (simp add: str_split_def ns)
qed

lemma norm_comps_valid:
  "r \<noteq> [] \<Longrightarrow> \<forall>n\<in>set acc. valid_name n \<Longrightarrow> \<forall>c\<in>set comps. CHR ''/'' \<notin> set c \<Longrightarrow>
   \<forall>n\<in>set (norm_comps r acc comps). valid_name n"
proof (induction comps arbitrary: acc)
  case Nil
  then show ?case by simp
next
  case (Cons c comps)
  note r = Cons.prems(1) and va = Cons.prems(2)
  from Cons.prems(3) have rest: "\<forall>c\<in>set comps. CHR ''/'' \<notin> set c" and c: "CHR ''/'' \<notin> set c"
    by simp_all
  have nl: "\<not> (acc \<noteq> [] \<and> last acc = ''..'')"
  proof
    assume "acc \<noteq> [] \<and> last acc = ''..''"
    then have "''..'' \<in> set acc" by (metis last_in_set)
    with va have "valid_name ''..''" by blast
    then show False by (simp add: valid_name_def)
  qed
  have bl: "\<forall>n\<in>set (butlast acc). valid_name n"
    using va by (auto dest: in_set_butlastD)
  show ?case
  proof (cases "c = [] \<or> c = ''.''")
    case True
    with Cons.IH [OF r va rest] show ?thesis by simp
  next
    case nd: False
    show ?thesis
    proof (cases "c = ''..''")
      case True
      have "norm_comps r acc (c # comps) =
          (if acc \<noteq> [] then norm_comps r (butlast acc) comps else norm_comps r acc comps)"
      proof (cases "acc = []")
        case e: True
        with True r show ?thesis by simp
      next
        case e: False
        with nl have "last acc \<noteq> ''..''" by blast
        with e True r show ?thesis by simp
      qed
      with Cons.IH [OF r va rest] Cons.IH [OF r bl rest] show ?thesis by simp
    next
      case False
      with nd c va have "\<forall>n\<in>set (acc @ [c]). valid_name n" by (simp add: valid_name_def)
      from Cons.IH [OF r this rest] nd False show ?thesis by simp
    qed
  qed
qed

lemma norm_comps_id:
  "r \<noteq> [] \<Longrightarrow> \<forall>n\<in>set ns. valid_name n \<Longrightarrow> norm_comps r acc ns = acc @ ns"
  by (induction ns arbitrary: acc) (auto simp: valid_name_def)

lemma splitroot_abs:
  "isabs p \<Longrightarrow> (fst (splitroot p) = ''/'' \<or> fst (splitroot p) = ''//'')
     \<and> p = fst (splitroot p) @ snd (splitroot p)"
proof -
  assume "isabs p"
  then obtain q where p: "p = CHR ''/'' # q" by (cases p) (auto simp: isabs_def startswith_def)
  show ?thesis
  proof (cases q)
    case Nil
    with p show ?thesis by (simp add: splitroot_def)
  next
    case (Cons a q')
    with p show ?thesis by (cases q') (auto simp: splitroot_def)
  qed
qed

lemma hd_join_valid:
  assumes "\<forall>n\<in>set ns. valid_name n"
  shows "take 1 (str_join ''/'' ns) \<noteq> ''/''"
proof (cases ns)
  case Nil
  then show ?thesis by simp
next
  case (Cons x xs)
  with assms obtain a x' where x: "x = a # x'" and a: "a \<noteq> CHR ''/''"
    by (cases x) (auto simp: valid_name_def)
  with Cons show ?thesis by (cases xs) simp_all
qed

lemma splitroot_render:
  assumes "r = ''/'' \<or> r = ''//''" and "\<forall>n\<in>set ns. valid_name n"
  shows "splitroot (render r ns) = (r, str_join ''/'' ns)"
  using assms(1) hd_join_valid [OF assms(2)]
  by (auto simp: splitroot_def render_def)

lemma normpath_render:
  assumes "r = ''/'' \<or> r = ''//''" and "\<forall>n\<in>set ns. valid_name n"
  shows "normpath (render r ns) = render r ns"
proof -
  from assms(1) have r: "r \<noteq> []" by auto
  have "norm_comps r [] (str_split CHR ''/'' (str_join ''/'' ns)) = ns"
  proof (cases "ns = []")
    case True
    then show ?thesis by (simp add: str_split_def)
  next
    case False
    with assms(2) show ?thesis by (simp add: str_split_join norm_comps_id [OF r])
  qed
  with r splitroot_render [OF assms] show ?thesis
    by (simp add: normpath_def Let_def) (simp add: render_def)
qed

lemma normpath_abs:
  assumes "isabs p"
  shows "\<exists>r ns. (r = ''/'' \<or> r = ''//'') \<and> (\<forall>n\<in>set ns. valid_name n) \<and> normpath p = render r ns"
proof -
  obtain r rest where s: "splitroot p = (r, rest)" by (cases "splitroot p")
  with splitroot_abs [OF assms] have r: "r = ''/'' \<or> r = ''//''" by simp
  then have rn: "r \<noteq> []" by auto
  from assms have pn: "p \<noteq> []" by (auto simp: isabs_def startswith_def)
  let ?ns = "norm_comps r [] (str_split CHR ''/'' rest)"
  have "\<forall>n\<in>set ?ns. valid_name n"
    by (rule norm_comps_valid [OF rn]) (auto dest: str_split_no_sep)
  moreover from s pn rn have "normpath p = render r ?ns"
    by (simp add: normpath_def Let_def render_def)
  ultimately show ?thesis using r by blast
qed

lemma normpath_idem: "isabs p \<Longrightarrow> normpath (normpath p) = normpath p"
  using normpath_abs [of p] normpath_render by auto

lemma isabs_render: "r = ''/'' \<or> r = ''//'' \<Longrightarrow> isabs (render r ns)"
  by (auto simp: isabs_def startswith_def render_def)

lemma isabs_normpath: "isabs p \<Longrightarrow> isabs (normpath p)"
  using normpath_abs [of p] isabs_render by auto




subsection \<open>The working directory that is returned\<close>





section \<open>Properties of the file system\<close>

subsection \<open>Looking up and storing along a normalised path\<close>

lemma lookup_append:
  "lookup r (a @ b) = (case lookup r a of None \<Rightarrow> None | Some m \<Rightarrow> lookup m b)"
proof (induction a arbitrary: r)
  case Nil
  show ?case by simp
next
  case (Cons x a)
  show ?case
  proof (cases r)
    case (File s)
    then show ?thesis by simp
  next
    case (Dir es)
    with Cons show ?thesis by (cases "map_of es x") simp_all
  qed
qed

lemma lookup_File_below: "lookup (File s) b = Some n \<Longrightarrow> b = []"
  by (cases b) simp_all

lemma lookup_prefix_dir:
  assumes "lookup r (a @ b) = Some n" and "b \<noteq> []"
  shows "\<exists>es. lookup r a = Some (Dir es)"
proof (cases "lookup r a")
  case None
  with assms show ?thesis by (simp add: lookup_append)
next
  case (Some m)
  with assms have "lookup m b = Some n" by (simp add: lookup_append)
  with assms(2) Some show ?thesis by (cases m) (auto dest: lookup_File_below)
qed

text \<open>Walking over valid names: every directory on the way must be there.\<close>

lemma walk_valid:
  assumes "\<forall>n\<in>set ns. valid_name n"
    and "\<forall>i<length ns. \<exists>es. lookup r (acc @ take i ns) = Some (Dir es)"
  shows "walk r acc ns = Inr (acc @ ns)"
  using assms
proof (induction ns arbitrary: acc)
  case Nil
  show ?case by simp
next
  case (Cons n ns)
  from Cons.prems(2) [rule_format, of 0] obtain es where a: "lookup r acc = Some (Dir es)" by auto
  from Cons.prems(1) have v: "n \<noteq> [] \<and> n \<noteq> ''.'' \<and> n \<noteq> ''..''" by (simp add: valid_name_def)
  have "\<forall>i<length ns. \<exists>es. lookup r ((acc @ [n]) @ take i ns) = Some (Dir es)"
  proof (intro allI impI)
    fix i assume "i < length ns"
    then have "Suc i < length (n # ns)" by simp
    from Cons.prems(2) [rule_format, OF this] show "\<exists>es. lookup r ((acc @ [n]) @ take i ns) = Some (Dir es)"
      by simp
  qed
  with Cons.IH [of "acc @ [n]"] Cons.prems(1) have "walk r (acc @ [n]) ns = Inr ((acc @ [n]) @ ns)"
    by simp
  with a v show ?case by simp
qed

lemma split_render:
  assumes "r = ''/'' \<or> r = ''//''" and "\<forall>n\<in>set ns. valid_name n" and "ns \<noteq> []"
  shows "\<exists>k. str_split CHR ''/'' (render r ns) = replicate k [] @ ns \<and> 0 < k"
proof -
  from assms(3) obtain n0 ms where ns: "ns = n0 # ms" by (cases ns) auto
  from assms(2) have "\<forall>n\<in>set (n0 # ms). CHR ''/'' \<notin> set n" by (simp add: ns valid_name_def)
  from split_from_join [OF this, of "[]"]
  have j: "split_from CHR ''/'' [] (str_join ''/'' ns) = ns" by (simp add: ns)
  from assms(1) show ?thesis
  proof
    assume "r = ''/''"
    with j have "str_split CHR ''/'' (render r ns) = replicate (Suc 0) [] @ ns \<and> 0 < Suc 0"
      by (simp add: render_def str_split_def)
    then show ?thesis by (rule exI)
  next
    assume "r = ''//''"
    with j have "str_split CHR ''/'' (render r ns) = replicate (Suc (Suc 0)) [] @ ns
        \<and> 0 < Suc (Suc 0)"
      by (simp add: render_def str_split_def)
    then show ?thesis by (rule exI)
  qed
qed

lemma walk_skip_empty:
  "lookup r acc = Some (Dir es) \<Longrightarrow> walk r acc (replicate k [] @ cs) = walk r acc cs"
  by (induction k) simp_all

lemma resolve_render:
  assumes "r = ''/'' \<or> r = ''//''" and "\<forall>n\<in>set ns. valid_name n" and "ns \<noteq> []"
    and "\<forall>i<length ns. \<exists>es. lookup (root w) (take i ns) = Some (Dir es)"
  shows "resolve w (render r ns) = Inr ns"
proof -
  from split_render [OF assms(1-3)] obtain k where
    k: "str_split CHR ''/'' (render r ns) = replicate k [] @ ns" by blast
  from assms(4) [rule_format, of 0] assms(3) obtain es where d: "lookup (root w) [] = Some (Dir es)"
    by auto
  from assms(1) have ab: "isabs (render r ns)" by (rule isabs_render)
  then have ne: "render r ns \<noteq> []" by (auto simp: isabs_def startswith_def)
  have "walk (root w) [] ns = Inr ([] @ ns)"
    by (rule walk_valid [OF assms(2)]) (use assms(4) in simp)
  with ab ne k walk_skip_empty [OF d, of k ns] show ?thesis by (simp add: resolve_def)
qed

lemma walk_valid_result:
  assumes "\<forall>n\<in>set ns. valid_name n" and "walk r acc ns = Inr x"
  shows "x = acc @ ns"
  using assms
proof (induction ns arbitrary: acc)
  case Nil
  then show ?case by simp
next
  case (Cons n ns)
  from Cons.prems(1) have v: "n \<noteq> [] \<and> n \<noteq> ''.'' \<and> n \<noteq> ''..''" by (simp add: valid_name_def)
  from Cons.prems(2) v have "walk r (acc @ [n]) ns = Inr x"
    by (auto split: option.splits node.splits)
  with Cons.IH [of "acc @ [n]"] Cons.prems(1) show ?case by simp
qed

lemma prefixes_dir:
  assumes "lookup r ns = Some (Dir es)"
  shows "\<forall>i<length ns. \<exists>es'. lookup r (take i ns) = Some (Dir es')"
proof (intro allI impI)
  fix i assume i: "i < length ns"
  have "lookup r (take i ns @ drop i ns) = Some (Dir es)" using assms by simp
  moreover from i have "drop i ns \<noteq> []" by simp
  ultimately show "\<exists>es'. lookup r (take i ns) = Some (Dir es')" by (rule lookup_prefix_dir)
qed

lemma resolve_root:
  assumes "r = ''/'' \<or> r = ''//''" and "lookup (root w) [] = Some (Dir es)"
  shows "resolve w (render r []) = Inr []"
  using assms by (auto simp: resolve_def render_def isabs_def startswith_def str_split_def)

lemma resolve_below_dir:
  assumes "r = ''/'' \<or> r = ''//''" and "\<forall>n\<in>set ns. valid_name n" and "valid_name f"
    and "lookup (root w) ns = Some (Dir es)"
  shows "resolve w (render r (ns @ [f])) = Inr (ns @ [f])"
proof (rule resolve_render [OF assms(1)])
  show "\<forall>n\<in>set (ns @ [f]). valid_name n" using assms(2,3) by simp
  show "ns @ [f] \<noteq> []" by simp
  show "\<forall>i<length (ns @ [f]). \<exists>es. lookup (root w) (take i (ns @ [f])) = Some (Dir es)"
  proof (intro allI impI)
    fix i assume "i < length (ns @ [f])"
    then have "i < length ns \<or> i = length ns" by auto
    then show "\<exists>es. lookup (root w) (take i (ns @ [f])) = Some (Dir es)"
      using prefixes_dir [OF assms(4)] assms(4) by auto
  qed
qed

lemma resolve_dir:
  assumes "r = ''/'' \<or> r = ''//''" and "\<forall>n\<in>set ns. valid_name n"
    and "lookup (root w) ns = Some (Dir es)"
  shows "resolve w (render r ns) = Inr ns"
proof (cases "ns = []")
  case True
  with assms show ?thesis using resolve_root [of r w es] by simp
next
  case False
  with assms prefixes_dir [OF assms(3)] show ?thesis by (intro resolve_render) auto
qed

lemma isdir_render:
  assumes "r = ''/'' \<or> r = ''//''" and "\<forall>n\<in>set ns. valid_name n" and "isdir w (render r ns)"
  shows "\<exists>es. lookup (root w) ns = Some (Dir es)"
proof -
  from assms(3) obtain x es where x: "resolve w (render r ns) = Inr x"
    and l: "lookup (root w) x = Some (Dir es)"
    by (auto simp: isdir_def stat_def split: sum.splits option.splits node.splits)
  from x obtain cs where w: "walk (root w) [] cs = Inr x"
    and cs: "cs = str_split CHR ''/'' (render r ns)"
    using isabs_render [OF assms(1), of ns] by (auto simp: resolve_def split: if_splits)
  from w obtain es0 where d: "lookup (root w) [] = Some (Dir es0) \<or> cs = []"
    by (cases cs) (auto split: option.splits node.splits)
  have "x = ns"
  proof (cases "ns = []")
    case True
    with assms(1) cs have "cs = [[], []] \<or> cs = [[], [], []]"
      by (auto simp: render_def str_split_def)
    with w show ?thesis using True by (auto split: option.splits node.splits)
  next
    case False
    from split_render [OF assms(1,2) False] cs obtain k where k: "cs = replicate k [] @ ns" and "0 < k"
      by auto
    with d obtain es1 where "lookup (root w) [] = Some (Dir es1)" by (cases k) auto
    from walk_skip_empty [OF this, of k ns] w k have "walk (root w) [] ns = Inr x" by simp
    from walk_valid_result [OF assms(2) this] show ?thesis by simp
  qed
  with l show ?thesis by blast
qed

lemma lookup_store:
  "p \<noteq> [] \<Longrightarrow> lookup r (butlast p) = Some (Dir es) \<Longrightarrow> lookup (store p (Some v) r) p = Some v"
proof (induction p arbitrary: r)
  case Nil
  then show ?case by simp
next
  case (Cons c p)
  show ?case
  proof (cases p)
    case Nil
    with Cons.prems show ?thesis by (simp add: update_conv')
  next
    case (Cons c' p')
    with Cons.prems obtain es0 m where r: "r = Dir es0" and m: "map_of es0 c = Some m"
      and l: "lookup m (butlast p) = Some (Dir es)"
      by (cases r) (auto split: option.splits)
    from Cons have pn: "p \<noteq> []" by simp
    from Cons.IH [OF pn l] r m pn show ?thesis by (simp add: update_conv')
  qed
qed

lemma store_is_dir: "\<exists>es'. store (c # cs) v (Dir es) = Dir es'"
  by (auto split: option.splits)

lemma store_prefix_dir:
  "lookup r q = Some (Dir es) \<Longrightarrow> \<exists>es'. lookup (store (q @ c # rest) v r) q = Some (Dir es')"
proof (induction q arbitrary: r)
  case Nil
  then show ?case using store_is_dir [of c rest v es] by simp
next
  case (Cons x q)
  then obtain es0 m where r: "r = Dir es0" and m: "map_of es0 x = Some m"
    and l: "lookup m q = Some (Dir es)"
    by (cases r) (auto split: option.splits)
  from Cons.IH [OF l] r m show ?case by (simp add: update_conv')
qed

subsection \<open>Resolving a name below a normalised directory\<close>

lemma str_join_snoc: "ns \<noteq> [] \<Longrightarrow> str_join s (ns @ [f]) = str_join s ns @ s @ f"
  by (induction s ns rule: str_join.induct) simp_all

lemma valid_name_last: "valid_name x \<Longrightarrow> x \<noteq> [] \<and> last x \<noteq> CHR ''/''"
proof -
  assume v: "valid_name x"
  then have n: "x \<noteq> []" and s: "CHR ''/'' \<notin> set x" by (simp_all add: valid_name_def)
  from n have "last x \<in> set x" by (rule last_in_set)
  with s n show ?thesis by metis
qed

lemma str_join_last:
  assumes "ns \<noteq> []" and "\<forall>n\<in>set ns. valid_name n"
  shows "str_join ''/'' ns \<noteq> [] \<and> last (str_join ''/'' ns) \<noteq> CHR ''/''"
  using assms
proof (induction ns rule: rev_nonempty_induct)
  case (single x)
  then have "valid_name x" by simp
  from valid_name_last [OF this] show ?case by simp
next
  case (snoc x xs)
  then have "valid_name x" by simp
  from valid_name_last [OF this] snoc(1) show ?case by (simp add: str_join_snoc)
qed

lemma join_render:
  assumes "r = ''/'' \<or> r = ''//''" and "\<forall>n\<in>set ns. valid_name n" and "valid_name f"
  shows "join (render r ns) f = render r (ns @ [f])"
proof -
  from assms(3) obtain a f' where f: "f = a # f'" and a: "a \<noteq> CHR ''/''"
    by (cases f) (auto simp: valid_name_def)
  then have nf: "\<not> startswith f ''/''" by (simp add: startswith_def)
  show ?thesis
  proof (cases "ns = []")
    case True
    with assms(1) nf show ?thesis by (auto simp: join_def render_def endswith_def)
  next
    case False
    from str_join_last [OF False assms(2)]
    have j: "str_join ''/'' ns \<noteq> []" and l: "last (str_join ''/'' ns) \<noteq> CHR ''/''" by simp_all
    have "\<not> endswith (render r ns) ''/''"
    proof
      assume e: "endswith (render r ns) ''/''"
      then have "drop (length (render r ns) - 1) (render r ns) = ''/''"
        by (simp add: endswith_def)
      moreover have "render r ns \<noteq> []" using j by (simp add: render_def)
      ultimately have "last (render r ns) = CHR ''/''"
        by (metis last_drop last.simps length_greater_0_conv diff_less zero_less_one)
      with j l show False by (simp add: render_def)
    qed
    moreover have "render r ns \<noteq> []" using j by (simp add: render_def)
    ultimately show ?thesis using nf False by (simp add: join_def render_def str_join_snoc)
  qed
qed

lemma path_resolve_name:
  assumes "r = ''/'' \<or> r = ''//''" and "\<forall>n\<in>set ns. valid_name n" and "valid_name f"
  shows "path_resolve f (render r ns) = render r (ns @ [f])"
proof -
  from assms(3) have "\<not> isabs f" by (cases f) (auto simp: valid_name_def isabs_def startswith_def)
  moreover have "normpath (render r (ns @ [f])) = render r (ns @ [f])"
    by (rule normpath_render [OF assms(1)]) (use assms(2,3) in simp)
  ultimately show ?thesis by (simp add: path_resolve_def join_render [OF assms])
qed

subsection \<open>Writing a file and reading it back\<close>

lemma write_new_text:
  assumes "r = ''/'' \<or> r = ''//''" and "\<forall>n\<in>set ns. valid_name n" and "valid_name f"
    and "lookup (root w) ns = Some (Dir es)"
    and "\<not> isdir w (render r (ns @ [f]))"
  shows "write_text False (render r (ns @ [f])) text w
     = (Inr (), set_root w (store (ns @ [f]) (Some (File text)) (root w)))"
proof -
  have res: "resolve w (render r (ns @ [f])) = Inr (ns @ [f])"
    by (rule resolve_below_dir [OF assms(1-4)])
  with assms(5) have "\<forall>ds. lookup (root w) (ns @ [f]) \<noteq> Some (Dir ds)"
    by (auto simp: isdir_def stat_def)
  with res show ?thesis
    by (auto simp: write_text_def split: option.splits node.splits)
qed

lemma read_written_text:
  assumes "r = ''/'' \<or> r = ''//''" and "\<forall>n\<in>set ns. valid_name n" and "valid_name f"
    and "lookup (root w) ns = Some (Dir es)"
    and "w1 = set_root w (store (ns @ [f]) (Some (File text)) (root w))"
  shows "stat w1 (render r (ns @ [f])) = Inr (File text)"
proof -
  have r1: "root w1 = store (ns @ [f]) (Some (File text)) (root w)"
    by (simp add: assms(5) set_root_def)
  from store_prefix_dir [OF assms(4), of f "[]" "Some (File text)"]
  obtain es' where "lookup (root w1) ns = Some (Dir es')" by (auto simp: r1)
  from resolve_below_dir [OF assms(1-3) this]
  have res: "resolve w1 (render r (ns @ [f])) = Inr (ns @ [f])" .
  have "lookup (root w1) (ns @ [f]) = Some (File text)"
    unfolding r1 by (rule lookup_store [where es = es]) (simp_all add: assms(4))
  with res show ?thesis by (simp add: stat_def)
qed

text \<open>
  C6: the round trip. In a working directory that is absolute, normalised and an existing
  directory, and where \<open>f.txt\<close> is not a directory, the line \<open>echo "hello" > f.txt\<close>
  returns exit code 0 with nothing on stdout or stderr, and \<open>cat f.txt\<close>, run next in the same
  working directory on the file system that echo left, returns the stdout \<open>hello\<close> followed by
  a newline, with exit code 0; cat changes nothing.
\<close>

theorem echo_cat_roundtrip:
  assumes "isabs cwd" and "normpath cwd = cwd" and "isdir w cwd"
    and "\<not> isdir w (path_resolve ''f.txt'' cwd)"
  shows "\<exists>w1. run echo_hello_line (Some cwd) w = (Inr ([], [], Some cwd, 0), w1)
           \<and> run ''cat f.txt'' (Some cwd) w1 = (Inr (''hello'' @ nl, [], Some cwd, 0), w1)"
proof -
  from normpath_abs [OF assms(1)] assms(2) obtain r ns where r: "r = ''/'' \<or> r = ''//''"
    and v: "\<forall>n\<in>set ns. valid_name n" and c: "cwd = render r ns" by auto
  have vf: "valid_name ''f.txt''" by (simp add: valid_name_def)
  have t: "path_resolve ''f.txt'' cwd = render r (ns @ [''f.txt''])"
    unfolding c by (rule path_resolve_name [OF r v vf])
  from isdir_render [OF r v] assms(3) c obtain es where d: "lookup (root w) ns = Some (Dir es)"
    by auto
  let ?text = "''hello'' @ nl"
  define w1 where "w1 = set_root w (store (ns @ [''f.txt'']) (Some (File ?text)) (root w))"
  from assms(4) have nd: "\<not> isdir w (render r (ns @ [''f.txt'']))" by (simp add: t)
  have wr: "write_text False (path_resolve ''f.txt'' cwd) (str_join '' '' [''hello''] @ nl) w = (Inr (), w1)"
    using write_new_text [OF r v vf d nd, of ?text] by (simp add: t w1_def del: append.simps)
  have tok1: "shlex_split (strip echo_hello_line) = Inr (''echo'' # [''hello''] @ ''>'' # ''f.txt'' # [])"
    by code_simp
  have "echo ([''hello''] @ ''>'' # ''f.txt'' # []) cwd w =
      (case write_text False (path_resolve ''f.txt'' cwd) (str_join '' '' [''hello''] @ nl) w of
         (Inl e, w1) \<Rightarrow> (Inr ([], ''echo: redirection error: '' @ exn_str e @ nl, Some cwd, 1), w1)
       | (Inr u, w1) \<Rightarrow> (Inr ([], [], Some cwd, 0), w1))"
    by (rule echo_gt) simp
  then have "echo ([''hello''] @ ''>'' # ''f.txt'' # []) cwd w = (Inr ([], [], Some cwd, 0), w1)"
    unfolding wr by simp
  then have "dispatch ''echo'' ([''hello''] @ ''>'' # ''f.txt'' # []) cwd w = (Inr ([], [], Some cwd, 0), w1)"
    by (simp add: dispatch_def)
  with run_tokens [OF tok1, of cwd w]
  have e: "run echo_hello_line (Some cwd) w = (Inr ([], [], Some cwd, 0), w1)" by simp
  have st: "stat w1 (path_resolve ''f.txt'' cwd) = Inr (File ?text)"
    unfolding t by (rule read_written_text [OF r v vf d w1_def])
  have un: "universal_newlines ?text = ?text" by (simp add: nl_def)
  have tok2: "shlex_split (strip ''cat f.txt'') = Inr (''cat'' # [''f.txt''])" by code_simp
  from st un have "cat [''f.txt''] cwd w1 = (Inr (?text, [], Some cwd, 0), w1)"
    by (simp add: cat_def Let_def path_exists_def isdir_def read_text_def ok_def)
  then have "dispatch ''cat'' [''f.txt''] cwd w1 = (Inr (?text, [], Some cwd, 0), w1)"
    by (simp add: dispatch_def)
  with run_tokens [OF tok2, of cwd w1]
  have "run ''cat f.txt'' (Some cwd) w1 = (Inr (?text, [], Some cwd, 0), w1)" by simp
  with e show ?thesis by blast
qed

theorem echo_cat_roundtrip_witness:
  "isabs ''/w'' \<and> normpath ''/w'' = ''/w'' \<and> isdir example_world ''/w''
   \<and> \<not> isdir example_world (path_resolve ''f.txt'' ''/w'')
   \<and> run echo_hello_line (Some ''/w'') example_world
       = (Inr ([], [], Some ''/w'', 0),
          set_root example_world
            (Dir [(''w'', Dir [(''a'', Dir [(''x'', File ''hi'')]), (''f'', File ''data''),
                               (''f.txt'', File (''hello'' @ nl))])]))
   \<and> run ''cat f.txt'' (Some ''/w'')
         (set_root example_world
            (Dir [(''w'', Dir [(''a'', Dir [(''x'', File ''hi'')]), (''f'', File ''data''),
                               (''f.txt'', File (''hello'' @ nl))])]))
       = (Inr (''hello'' @ nl, [], Some ''/w'', 0),
          set_root example_world
            (Dir [(''w'', Dir [(''a'', Dir [(''x'', File ''hi'')]), (''f'', File ''data''),
                               (''f.txt'', File (''hello'' @ nl))])]))"
proof -
  let ?W = "set_root example_world
            (Dir [(''w'', Dir [(''a'', Dir [(''x'', File ''hi'')]), (''f'', File ''data''),
                               (''f.txt'', File (''hello'' @ nl))])])"
  have h1: "isabs ''/w''" and h2: "normpath ''/w'' = ''/w''" and h3: "isdir example_world ''/w''"
    and h4: "\<not> isdir example_world (path_resolve ''f.txt'' ''/w'')" by code_simp+
  have he: "run echo_hello_line (Some ''/w'') example_world = (Inr ([], [], Some ''/w'', 0), ?W)"
    by code_simp
  from echo_cat_roundtrip [OF h1 h2 h3 h4] obtain w1 where
    a: "run echo_hello_line (Some ''/w'') example_world = (Inr ([], [], Some ''/w'', 0), w1)"
    and b: "run ''cat f.txt'' (Some ''/w'') w1 = (Inr (''hello'' @ nl, [], Some ''/w'', 0), w1)"
    by blast
  from a he have "w1 = ?W" by simp
  with b have hc: "run ''cat f.txt'' (Some ''/w'') ?W = (Inr (''hello'' @ nl, [], Some ''/w'', 0), ?W)"
    by simp
  show ?thesis by (intro conjI) (rule h1 h2 h3 h4 he hc)+
qed

end
